theory Spec2Isabelle
  imports Main "HOL-Library.Word"
begin

section \<open>JavaScript strings\<close>

text \<open>
  A JavaScript string is a sequence of 16-bit code units; \<open>length\<close>, \<open>charAt\<close>,
  \<open>charCodeAt\<close>, \<open>slice\<close> and the regular expressions of the component all
  work on code units. Offsets are JavaScript numbers; the model takes them to be
  integers (the cursor may be negative or past the end, see \<open>cursorPositionEffect\<close>).
\<close>

type_synonym jschar = "16 word"
type_synonym jsstring = "jschar list"

definition ascii :: "string \<Rightarrow> jsstring" where
  \<comment> \<open>a string literal of the source, as code units\<close>
  "ascii s = map of_char s"

definition relativeIndex :: "nat \<Rightarrow> int \<Rightarrow> nat" where
  \<comment> \<open>how \<open>String.prototype.slice\<close> reads an index: negative counts from the end, then clamp\<close>
  "relativeIndex len i = (if i < 0 then nat (max (int len + i) 0) else min (nat i) len)"

definition slice :: "jsstring \<Rightarrow> int \<Rightarrow> int \<Rightarrow> jsstring" where
  \<comment> \<open>\<open>s.slice(start, end)\<close>\<close>
  "slice s start fin =
     (let from = relativeIndex (length s) start; to = relativeIndex (length s) fin
      in take (to - from) (drop from s))"

definition sliceFrom :: "jsstring \<Rightarrow> int \<Rightarrow> jsstring" where
  \<comment> \<open>\<open>s.slice(start)\<close>\<close>
  "sliceFrom s start = drop (relativeIndex (length s) start) s"

definition charAt :: "jsstring \<Rightarrow> int \<Rightarrow> jsstring" where
  \<comment> \<open>\<open>s.charAt(pos)\<close>: the empty string out of range\<close>
  "charAt s pos = (if 0 \<le> pos \<and> pos < int (length s) then [s ! nat pos] else [])"

definition isWhiteSpace :: "jschar \<Rightarrow> bool" where
  \<comment> \<open>the code units the class \<open>\s\<close> matches: WhiteSpace and LineTerminator of ECMAScript\<close>
  "isWhiteSpace c \<longleftrightarrow>
     c = 9 \<or> c = 10 \<or> c = 11 \<or> c = 12 \<or> c = 13 \<or> c = 32 \<or> c = 160 \<or> c = 5760 \<or>
     (8192 \<le> c \<and> c \<le> 8202) \<or> c = 8232 \<or> c = 8233 \<or> c = 8239 \<or> c = 8287 \<or>
     c = 12288 \<or> c = 65279"

definition test_s :: "jsstring \<Rightarrow> bool" where
  \<comment> \<open>\<open>/\s/.test(s)\<close>: some code unit of s is white space\<close>
  "test_s s = list_ex isWhiteSpace s"

definition test_S :: "jsstring \<Rightarrow> bool" where
  \<comment> \<open>\<open>/\S/.test(s)\<close>: some code unit of s is not white space\<close>
  "test_S s = list_ex (\<lambda>c. \<not> isWhiteSpace c) s"

fun lineBreaks :: "jsstring \<Rightarrow> nat" where
  \<comment> \<open>the number of matches of \<open>/\r\n|\r|\n/g\<close>\<close>
  "lineBreaks [] = 0"
| "lineBreaks [c] = (if c = 13 \<or> c = 10 then 1 else 0)"
| "lineBreaks (c # d # ds) =
     (if c = 13 \<and> d = 10 then 1 + lineBreaks ds
      else if c = 13 \<or> c = 10 then 1 + lineBreaks (d # ds)
      else lineBreaks (d # ds))"

definition countLines :: "jsstring \<Rightarrow> nat" where
  "countLines s = lineBreaks s + 1"

definition returnGlyph :: jschar where
  \<comment> \<open>U+21B5, the visual indicator\<close>
  "returnGlyph = 8629"

fun sanitizeForDisplay :: "jsstring \<Rightarrow> jsstring" where
  \<comment> \<open>\<open>text.replace(/\r\n|\r|\n/g, "\<dots>")\<close> with the glyph U+21B5\<close>
  "sanitizeForDisplay [] = []"
| "sanitizeForDisplay [c] = (if c = 13 \<or> c = 10 then [returnGlyph] else [c])"
| "sanitizeForDisplay (c # d # ds) =
     (if c = 13 \<and> d = 10 then returnGlyph # sanitizeForDisplay ds
      else if c = 13 \<or> c = 10 then returnGlyph # sanitizeForDisplay (d # ds)
      else c # sanitizeForDisplay (d # ds))"

section \<open>Word boundaries\<close>

function skipSpaceBack :: "jsstring \<Rightarrow> int \<Rightarrow> int" where
  \<comment> \<open>\<open>while (pos > 0 && /\s/.test(text.charAt(pos))) pos--\<close>\<close>
  "skipSpaceBack s pos =
     (if pos > 0 \<and> test_s (charAt s pos) then skipSpaceBack s (pos - 1) else pos)"
  by pat_completeness auto
termination
  by (relation "measure (\<lambda>(s, pos). nat pos)") auto

function skipWordBack :: "jsstring \<Rightarrow> int \<Rightarrow> int" where
  \<comment> \<open>\<open>while (pos > 0 && /\S/.test(text.charAt(pos))) pos--\<close>\<close>
  "skipWordBack s pos =
     (if pos > 0 \<and> test_S (charAt s pos) then skipWordBack s (pos - 1) else pos)"
  by pat_completeness auto
termination
  by (relation "measure (\<lambda>(s, pos). nat pos)") auto

definition findPreviousWordBoundary :: "jsstring \<Rightarrow> int \<Rightarrow> int" where
  "findPreviousWordBoundary s cursorPos =
     (if cursorPos = 0 then 0
      else
        let pos = cursorPos - 1;
            pos = skipSpaceBack s pos;
            pos = skipWordBack s pos;
            pos = (if pos > 0 \<and> test_s (charAt s pos) then pos + 1 else pos)
        in max 0 pos)"

function skipWordForward :: "jsstring \<Rightarrow> int \<Rightarrow> int" where
  \<comment> \<open>\<open>while (pos < text.length && /\S/.test(text.charAt(pos))) pos++\<close>\<close>
  "skipWordForward s pos =
     (if pos < int (length s) \<and> test_S (charAt s pos) then skipWordForward s (pos + 1) else pos)"
  by pat_completeness auto
termination
  by (relation "measure (\<lambda>(s, pos). nat (int (length s) - pos))") auto

function skipSpaceForward :: "jsstring \<Rightarrow> int \<Rightarrow> int" where
  \<comment> \<open>\<open>while (pos < text.length && /\s/.test(text.charAt(pos))) pos++\<close>\<close>
  "skipSpaceForward s pos =
     (if pos < int (length s) \<and> test_s (charAt s pos) then skipSpaceForward s (pos + 1) else pos)"
  by pat_completeness auto
termination
  by (relation "measure (\<lambda>(s, pos). nat (int (length s) - pos))") auto

definition findNextWordBoundary :: "jsstring \<Rightarrow> int \<Rightarrow> int" where
  "findNextWordBoundary s cursorPos =
     (if cursorPos \<ge> int (length s) then int (length s)
      else
        let pos = cursorPos;
            pos = skipWordForward s pos;
            pos = skipSpaceForward s pos
        in pos)"

declare skipSpaceBack.simps [simp del] skipWordBack.simps [simp del]
  skipWordForward.simps [simp del] skipSpaceForward.simps [simp del]

type_synonym wordDirection = bool
  \<comment> \<open>\<open>"left"\<close> is True, \<open>"right"\<close> is False; \<open>null\<close> is \<open>None\<close>\<close>

definition optionDigit :: "jschar \<Rightarrow> bool" where
  \<comment> \<open>\<open>(?:3|4|7|8|9)\<close>\<close>
  "optionDigit d \<longleftrightarrow> d = 51 \<or> d = 52 \<or> d = 55 \<or> d = 56 \<or> d = 57"

fun optionPattern :: "jschar \<Rightarrow> jsstring \<Rightarrow> bool" where
  \<comment> \<open>\<open>/^\u001b\[(?:1;)?(?:3|4|7|8|9)X$/\<close>, X the final letter\<close>
  "optionPattern x [a, b, d, f] \<longleftrightarrow> a = 27 \<and> b = 91 \<and> optionDigit d \<and> f = x"
| "optionPattern x [a, b, c, e, d, f] \<longleftrightarrow>
     a = 27 \<and> b = 91 \<and> c = 49 \<and> e = 59 \<and> optionDigit d \<and> f = x"
| "optionPattern x _ \<longleftrightarrow> False"

definition detectOptionWordDirection :: "jsstring \<Rightarrow> wordDirection option" where
  "detectOptionWordDirection sequence =
     (if \<not> (case sequence of [] \<Rightarrow> False | c # _ \<Rightarrow> c = 27) then None
      else if sequence = [27, 98] \<or> sequence = [27, 66] then Some True
      else if sequence = [27, 102] \<or> sequence = [27, 70] then Some False
      else if optionPattern 68 sequence then Some True
      else if optionPattern 67 sequence then Some False
      else None)"

fun split :: "jschar \<Rightarrow> jsstring \<Rightarrow> jsstring list" where
  \<comment> \<open>\<open>s.split(sep)\<close> for a separator of one code unit\<close>
  "split sep [] = [[]]"
| "split sep (c # cs) =
     (if c = sep then [] # split sep cs
      else (case split sep cs of p # ps \<Rightarrow> (c # p) # ps | [] \<Rightarrow> [[c]]))"

section \<open>The component's state\<close>

text \<open>
  What the owner is told: each call of \<open>onChange\<close>, \<open>onCursorMove\<close> and
  \<open>onSubmit\<close> is appended to a log. The state holds the four refs, the two pieces
  of React state (a \<open>setDisplayValue\<close> is taken to be in force at once, and
  \<open>setDisplayValue(prev => prev)\<close> changes nothing; \<open>setNudgeCursorOffset\<close> is never
  called), the registry of the \<open>pasteRegistry\<close> module, and the log.
\<close>

datatype emission = OnChange jsstring | OnCursorMove int | OnSubmit jsstring

type_synonym pasteRegistry = "(nat \<times> jsstring) list"
  \<comment> \<open>the PasteRecords of the external registry: id and full text\<close>

record state =
  displayValue :: jsstring
  lastPasteDetectedAtRef :: nat
  caretOffsetRef :: int
  valueRef :: jsstring
  lastEmittedValueRef :: jsstring
  nudgeCursorOffset :: "int option"
  registry :: pasteRegistry
  emitted :: "emission list"

text \<open>
  The properties the handlers read. \<open>onChange\<close> is required; \<open>onSubmit\<close> and
  \<open>onCursorMove\<close> are optional, and the handlers test them before the call.
\<close>

record props =
  hasOnSubmit :: bool
  hasOnCursorMove :: bool
  focus :: bool

definition mount :: "jsstring \<Rightarrow> pasteRegistry \<Rightarrow> state" where
  \<comment> \<open>the \<open>useState\<close> and \<open>useRef\<close> initialisers of the first render\<close>
  "mount v reg =
     \<lparr> displayValue = v, lastPasteDetectedAtRef = 0, caretOffsetRef = int (length v),
       valueRef = v, lastEmittedValueRef = v, nudgeCursorOffset = None,
       registry = reg, emitted = [] \<rparr>"

definition valueEffect :: "jsstring \<Rightarrow> state \<Rightarrow> state" where
  \<comment> \<open>the effect with dependencies \<open>[value]\<close>\<close>
  "valueEffect v st =
     (if v \<noteq> lastEmittedValueRef st
      then st\<lparr> valueRef := v, displayValue := v, caretOffsetRef := int (length v) \<rparr>
      else st)"

definition cursorPositionEffect :: "int option \<Rightarrow> state \<Rightarrow> state" where
  \<comment> \<open>the effect with dependencies \<open>[cursorPosition]\<close>; \<open>None\<close> is \<open>undefined\<close>\<close>
  "cursorPositionEffect cursorPosition st =
     (case cursorPosition of
        Some n \<Rightarrow> st\<lparr> caretOffsetRef := n \<rparr>
      | None \<Rightarrow> st)"

definition rerender ::
  "jsstring \<times> int option \<Rightarrow> jsstring \<times> int option \<Rightarrow> state \<Rightarrow> state" where
  \<comment> \<open>a render with new \<open>value\<close> and \<open>cursorPosition\<close>: React runs, in the order of
      their declaration, the effects of which a dependency has changed\<close>
  "rerender old new st =
     (let st = (if fst new \<noteq> fst old then valueEffect (fst new) st else st)
      in if snd new \<noteq> snd old then cursorPositionEffect (snd new) st else st)"

definition updateCursor :: "props \<Rightarrow> int \<Rightarrow> state \<Rightarrow> state" where
  "updateCursor p newPos st =
     (let clamped = max 0 (min newPos (int (length (valueRef st))))
      in st\<lparr> caretOffsetRef := clamped,
              emitted := emitted st @ (if hasOnCursorMove p then [OnCursorMove clamped] else []) \<rparr>)"

definition updateValue :: "props \<Rightarrow> jsstring \<Rightarrow> int option \<Rightarrow> state \<Rightarrow> state" where
  "updateValue p newValue newCursor st =
     (let st = st\<lparr> valueRef := newValue, lastEmittedValueRef := newValue,
                     displayValue := newValue, emitted := emitted st @ [OnChange newValue] \<rparr>
      in case newCursor of Some c \<Rightarrow> updateCursor p c st | None \<Rightarrow> st)"

definition deleteCharacter :: "props \<Rightarrow> bool \<Rightarrow> state \<Rightarrow> state" where
  "deleteCharacter p forward st =
     (let current = valueRef st; pos = caretOffsetRef st
      in if forward then
           (if pos < int (length current)
            then updateValue p (slice current 0 pos @ sliceFrom current (pos + 1)) (Some pos) st
            else st)
         else
           (if pos > 0
            then updateValue p (slice current 0 (pos - 1) @ sliceFrom current pos) (Some (pos - 1)) st
            else st))"

definition cursorIndex :: "state \<Rightarrow> int" where
  \<comment> \<open>where the render draws the cursor\<close>
  "cursorIndex st = min (max 0 (caretOffsetRef st)) (int (length (displayValue st)))"

section \<open>The collaborators\<close>

text \<open>
  The clipboard translator and the paste registry are imported from
  \<open>../helpers/clipboard\<close> and \<open>../helpers/pasteRegistry\<close>. The handlers take
  them as parameters; each call either returns or throws (\<open>Inl\<close>).
  \<open>allocatePaste\<close> reads and updates the registry. \<open>now\<close> is what \<open>Date.now()\<close>
  returns during the event.
\<close>

datatype exn = TranslatorThrew | ClipboardThrew | AllocateThrew

record env =
  translatePasteForImages :: "jsstring \<Rightarrow> exn + jsstring"
  tryImportClipboardImageMac :: "exn + jsstring option"
  allocatePaste :: "pasteRegistry \<Rightarrow> jsstring \<Rightarrow> exn + nat \<times> pasteRegistry"
  now :: nat

text \<open>
  Modelled from the spec: the paste registry, whose \<open>allocate(fullText) -> id\<close> gives
  monotonic, process-lifetime unique ids. The ids count from 1.
\<close>

definition registryAllocate :: "pasteRegistry \<Rightarrow> jsstring \<Rightarrow> exn + nat \<times> pasteRegistry" where
  "registryAllocate reg fullText =
     (let pasteId = Suc (fold max (map fst reg) 0) in Inr (pasteId, reg @ [(pasteId, fullText)]))"

section \<open>Inserting text\<close>

definition digit :: "nat \<Rightarrow> jschar" where
  "digit d = of_nat (48 + d)"

fun decimal :: "nat \<Rightarrow> jsstring" where
  \<comment> \<open>a natural number in a template literal\<close>
  "decimal n = (if n < 10 then [digit n] else decimal (n div 10) @ [digit (n mod 10)])"

declare decimal.simps [simp del]

definition pastePlaceholder :: "nat \<Rightarrow> nat \<Rightarrow> jsstring" where
  \<comment> \<open>\<open>`[Pasted text #${pasteId} +${lines} lines]`\<close>\<close>
  "pastePlaceholder pasteId lines =
     ascii ''[Pasted text #'' @ decimal pasteId @ ascii '' +'' @ decimal lines @ ascii '' lines]''"

definition insertAtCaret :: "props \<Rightarrow> jsstring \<Rightarrow> state \<Rightarrow> state" where
  \<comment> \<open>the last two statements of \<open>handleInsert\<close>; \<open>current\<close> and \<open>pos\<close> were read at its start\<close>
  "insertAtCaret p insertion st =
     (let current = valueRef st; pos = caretOffsetRef st;
          next = slice current 0 pos @ insertion @ sliceFrom current pos
      in updateValue p next (Some (pos + int (length insertion))) st)"

definition handleInsert :: "env \<Rightarrow> props \<Rightarrow> jsstring \<Rightarrow> bool \<Rightarrow> state \<Rightarrow> exn option \<times> state" where
  \<comment> \<open>the result is the exception that left the function, if any, and the state then\<close>
  "handleInsert e p txt isPaste st =
     (let isLarge = isPaste \<or> length txt > 5
      in if isLarge then
           (case translatePasteForImages e txt of
              Inl x \<Rightarrow> (Some x, st)
            | Inr translated \<Rightarrow>
                (let lines = countLines translated
                 in if length txt > 500 \<or> lines > 5 then
                      (case allocatePaste e (registry st) translated of
                         Inl x \<Rightarrow> (Some x, st)
                       | Inr (pasteId, reg) \<Rightarrow>
                           (None, insertAtCaret p (pastePlaceholder pasteId lines)
                                    (st\<lparr> registry := reg \<rparr>)))
                    else (None, insertAtCaret p (sanitizeForDisplay translated) st)))
         else (None, insertAtCaret p (sanitizeForDisplay txt) st))"

section \<open>The key handler\<close>

record key =
  isPasted :: bool
  meta :: bool
  ctrl :: bool
  shift :: bool
  return :: bool
  leftArrow :: bool
  rightArrow :: bool
  backspace :: bool
  delete :: bool

definition removeBefore :: "jsstring \<Rightarrow> int \<Rightarrow> jsstring" where
  \<comment> \<open>\<open>nextValue.slice(0, nextPos - 1) + nextValue.slice(nextPos)\<close>\<close>
  "removeBefore nextValue nextPos = slice nextValue 0 (nextPos - 1) @ sliceFrom nextValue nextPos"

fun batchStep :: "jsstring \<times> int \<times> bool \<Rightarrow> jschar \<Rightarrow> jsstring \<times> int \<times> bool" where
  \<comment> \<open>one turn of the loop over the input; the triple is nextValue, nextPos, processed\<close>
  "batchStep (nextValue, nextPos, processed) code =
     (if code = 127 \<or> code = 8 then
        (if nextPos > 0 then (removeBefore nextValue nextPos, nextPos - 1, True)
         else (nextValue, nextPos, True))
      else if code \<ge> 32 then
        (slice nextValue 0 nextPos @ [code] @ sliceFrom nextValue nextPos, nextPos + 1, True)
      else (nextValue, nextPos, processed))"

definition batchStart :: "jsstring \<Rightarrow> key \<Rightarrow> state \<Rightarrow> jsstring \<times> int \<times> bool" where
  \<comment> \<open>the variables before the loop, after the detached backspace\<close>
  "batchStart input k st =
     (let nextValue = valueRef st; nextPos = caretOffsetRef st;
          hasRawBackspace = (8 \<in> set input \<or> 127 \<in> set input)
      in if backspace k \<and> \<not> hasRawBackspace \<and> nextPos > 0
         then (removeBefore nextValue nextPos, nextPos - 1, True)
         else (nextValue, nextPos, False))"

definition explicitKeys :: "props \<Rightarrow> key \<Rightarrow> state \<Rightarrow> state" where
  \<comment> \<open>5. Fallback for Explicit Keys\<close>
  "explicitKeys p k st =
     (if backspace k then deleteCharacter p False st
      else if delete k then deleteCharacter p True st
      else st)"

definition batchStream :: "props \<Rightarrow> jsstring \<Rightarrow> key \<Rightarrow> state \<Rightarrow> state" where
  \<comment> \<open>4. Batch Stream Processing, falling through to 5\<close>
  "batchStream p input k st =
     (if input \<noteq> [] then
        (case foldl batchStep (batchStart input k st) input of
           (nextValue, nextPos, processed) \<Rightarrow>
             if processed then updateValue p nextValue (Some nextPos) st
             else explicitKeys p k st)
      else explicitKeys p k st)"

definition specialKeys :: "props \<Rightarrow> jsstring \<Rightarrow> key \<Rightarrow> state \<Rightarrow> state" where
  \<comment> \<open>3. Navigation / Special Keys, then the modifiers, then 4 and 5\<close>
  "specialKeys p input k st =
     (if return k then
        (if hasOnSubmit p then st\<lparr> emitted := emitted st @ [OnSubmit (displayValue st)] \<rparr> else st)
      else if leftArrow k then updateCursor p (caretOffsetRef st - 1) st
      else if rightArrow k then updateCursor p (caretOffsetRef st + 1) st
      else if ctrl k \<or> meta k then st
      else batchStream p input k st)"

definition pasteShortcuts :: "env \<Rightarrow> props \<Rightarrow> jsstring \<Rightarrow> key \<Rightarrow> state \<Rightarrow> exn option \<times> state" where
  \<comment> \<open>2. Handle Paste Shortcuts, then the rest\<close>
  "pasteShortcuts e p input k st =
     (if (meta k \<and> (input = [118] \<or> input = [86])) \<or>
         (ctrl k \<and> shift k \<and> (input = [118] \<or> input = [86])) then
        (case tryImportClipboardImageMac e of
           Inl x \<Rightarrow> (Some x, st)
         | Inr clip \<Rightarrow>
             (case clip of
                Some placeholder \<Rightarrow>
                  if placeholder \<noteq> [] then handleInsert e p placeholder True st
                  else (None, specialKeys p input k st)
              | None \<Rightarrow> (None, specialKeys p input k st)))
      else (None, specialKeys p input k st))"

definition useInputHandler :: "env \<Rightarrow> props \<Rightarrow> jsstring \<Rightarrow> key \<Rightarrow> state \<Rightarrow> exn option \<times> state" where
  \<comment> \<open>the callback given to \<open>useInput\<close>; Ink calls it while \<open>focus\<close> holds\<close>
  "useInputHandler e p input k st =
     (if isPasted k then
        (let st = st\<lparr> lastPasteDetectedAtRef := now e \<rparr>; payload = input
         in case translatePasteForImages e payload of
              Inl x \<Rightarrow> (Some x, st)
            | Inr translated \<Rightarrow>
                (if translated = [] \<and> payload = [] then
                   (case tryImportClipboardImageMac e of
                      Inl x \<Rightarrow> (Some x, st)
                    | Inr clip \<Rightarrow>
                        (let translated =
                               (case clip of
                                  Some c \<Rightarrow> if c \<noteq> [] then c else translated
                                | None \<Rightarrow> translated)
                         in if translated \<noteq> [] then handleInsert e p translated True st
                            else pasteShortcuts e p input k st))
                 else if translated \<noteq> [] then handleInsert e p translated True st
                 else pasteShortcuts e p input k st))
      else pasteShortcuts e p input k st)"

section \<open>The raw input listener\<close>

definition moveCursorToPreviousWord :: "props \<Rightarrow> state \<Rightarrow> state" where
  "moveCursorToPreviousWord p st =
     updateCursor p (findPreviousWordBoundary (valueRef st) (caretOffsetRef st)) st"

definition moveCursorToNextWord :: "props \<Rightarrow> state \<Rightarrow> state" where
  "moveCursorToNextWord p st =
     updateCursor p (findNextWordBoundary (valueRef st) (caretOffsetRef st)) st"

definition deletePreviousWord :: "props \<Rightarrow> state \<Rightarrow> state" where
  "deletePreviousWord p st =
     (let curPos = caretOffsetRef st;
          wordStart = findPreviousWordBoundary (valueRef st) curPos
      in if wordStart = curPos then st
         else
           (let current = valueRef st;
                next = slice current 0 wordStart @ sliceFrom current curPos
            in updateValue p next (Some wordStart) st))"

text \<open>
  The payload of an \<open>input\<close> event is a string, or an object whose \<open>sequence\<close>
  is a string or is missing; anything else gives no sequence.
\<close>

datatype payload = PayloadString jsstring | PayloadObject "jsstring option" | PayloadOther

definition payloadSequence :: "payload \<Rightarrow> jsstring option" where
  "payloadSequence pl =
     (case pl of
        PayloadString s \<Rightarrow> Some s
      | PayloadObject (Some s) \<Rightarrow> (if s \<noteq> [] then Some s else None)
      | PayloadObject None \<Rightarrow> None
      | PayloadOther \<Rightarrow> None)"

fun firstDirection :: "jsstring list \<Rightarrow> wordDirection option" where
  \<comment> \<open>the loop over \<open>parts[1..]\<close>: the first part that gives a direction\<close>
  "firstDirection [] = None"
| "firstDirection (part # parts) =
     (case detectOptionWordDirection (27 # part) of
        Some dir \<Rightarrow> Some dir
      | None \<Rightarrow> firstDirection parts)"

definition handleRawInput :: "props \<Rightarrow> payload \<Rightarrow> state \<Rightarrow> state" where
  "handleRawInput p pl st =
     (if \<not> focus p then st
      else case payloadSequence pl of
        None \<Rightarrow> st
      | Some sequence \<Rightarrow>
          if sequence = [] then st
          else if sequence = [127] \<or> sequence = [8] then deleteCharacter p False st
          else if sequence = [27, 127] \<or> sequence = [27, 8] \<or> sequence = [27, 8] \<or>
                  sequence = [23] then deletePreviousWord p st
          else if length sequence \<le> 32 \<and> 27 \<in> set sequence then
            (case firstDirection (tl (split 27 sequence)) of
               Some True \<Rightarrow> moveCursorToPreviousWord p st
             | Some False \<Rightarrow> moveCursorToNextWord p st
             | None \<Rightarrow> st)
          else st)"

section \<open>Notions used in the statements\<close>

definition cursorInRange :: "state \<Rightarrow> bool" where
  \<comment> \<open>the invariant of the edit buffer: \<open>0 \<le> cursor \<le> length(text)\<close>\<close>
  "cursorInRange st \<longleftrightarrow> 0 \<le> caretOffsetRef st \<and> caretOffsetRef st \<le> int (length (valueRef st))"

definition typingKey :: "key \<Rightarrow> bool" where
  \<comment> \<open>the key descriptors that reach the batch stream processing: no paste flag,
      no modifier, neither Return nor an arrow\<close>
  "typingKey k \<longleftrightarrow>
     \<not> isPasted k \<and> \<not> meta k \<and> \<not> ctrl k \<and> \<not> return k \<and> \<not> leftArrow k \<and> \<not> rightArrow k"

definition noFlags :: key where
  "noFlags =
     \<lparr> isPasted = False, meta = False, ctrl = False, shift = False, return = False,
       leftArrow = False, rightArrow = False, backspace = False, delete = False \<rparr>"

definition allCallbacks :: props where
  "allCallbacks = \<lparr> hasOnSubmit = True, hasOnCursorMove = True, focus = True \<rparr>"

definition plainEnv :: env where
  \<comment> \<open>collaborators that never throw: text without images is translated to itself,
      the clipboard holds no image, the registry is the one modelled from the spec\<close>
  "plainEnv =
     \<lparr> translatePasteForImages = Inr, tryImportClipboardImageMac = Inr None,
       allocatePaste = registryAllocate, now = 0 \<rparr>"

text \<open>
  The composition rule in the words of the specification, on a text and an offset
  into it: a backward deletion, an insertion, the pass over the payload, and the
  detached backspace before the pass.
\<close>

definition backwardDeletion :: "jsstring \<times> nat \<Rightarrow> jsstring \<times> nat" where
  "backwardDeletion b =
     (case b of (t, pos) \<Rightarrow> if pos = 0 then (t, pos) else (take (pos - 1) t @ drop pos t, pos - 1))"

definition insertion :: "jschar \<Rightarrow> jsstring \<times> nat \<Rightarrow> jsstring \<times> nat" where
  "insertion c b = (case b of (t, pos) \<Rightarrow> (take pos t @ [c] @ drop pos t, pos + 1))"

definition payloadStep :: "jsstring \<times> nat \<Rightarrow> jschar \<Rightarrow> jsstring \<times> nat" where
  "payloadStep b c =
     (if c = 8 \<or> c = 127 then backwardDeletion b
      else if 32 \<le> c then insertion c b
      else b)"

definition compositionRule :: "key \<Rightarrow> jsstring \<Rightarrow> jsstring \<times> nat \<Rightarrow> jsstring \<times> nat" where
  "compositionRule k input b =
     foldl payloadStep
       (if backspace k \<and> 8 \<notin> set input \<and> 127 \<notin> set input then backwardDeletion b else b) input"

definition acted :: "jsstring \<Rightarrow> bool" where
  \<comment> \<open>the payload holds a code point that the pass does not ignore\<close>
  "acted input \<longleftrightarrow> (\<exists>c \<in> set input. c = 8 \<or> c = 127 \<or> 32 \<le> c)"

text \<open>A sequence of Character events of one code unit each, with their key descriptors.\<close>

fun typeCharacters :: "env \<Rightarrow> props \<Rightarrow> (jschar \<times> key) list \<Rightarrow> state \<Rightarrow> state" where
  "typeCharacters e p [] st = st"
| "typeCharacters e p ((c, k) # events) st =
     typeCharacters e p events (snd (useInputHandler e p [c] k st))"

text \<open>Inputs and collaborators for the examples.\<close>

definition sixLines :: jsstring where
  \<comment> \<open>the letters a to f, one per line\<close>
  "sixLines = [97, 10, 98, 10, 99, 10, 100, 10, 101, 10, 102]"

definition failingTranslator :: env where
  "failingTranslator = plainEnv\<lparr> translatePasteForImages := (\<lambda>s. Inl TranslatorThrew), now := 5 \<rparr>"

definition failingRegistry :: env where
  "failingRegistry = plainEnv\<lparr> allocatePaste := (\<lambda>reg s. Inl AllocateThrew), now := 5 \<rparr>"

text \<open>
  The word boundaries in the words of the specification. A pointer steps left or right
  while the character under it satisfies a test; stepping left may leave the text at -1,
  which the final clamp brings back to 0.
\<close>

function stepLeftWhile :: "(jsstring \<Rightarrow> bool) \<Rightarrow> jsstring \<Rightarrow> int \<Rightarrow> int" where
  "stepLeftWhile P t p = (if 0 \<le> p \<and> P (charAt t p) then stepLeftWhile P t (p - 1) else p)"
  by pat_completeness auto
termination
  by (relation "measure (\<lambda>(P, t, p). nat (p + 1))") auto

function stepRightWhile :: "(jsstring \<Rightarrow> bool) \<Rightarrow> jsstring \<Rightarrow> int \<Rightarrow> int" where
  "stepRightWhile P t p =
     (if p < int (length t) \<and> P (charAt t p) then stepRightWhile P t (p + 1) else p)"
  by pat_completeness auto
termination
  by (relation "measure (\<lambda>(P, t, p). nat (int (length t) - p))") auto

declare stepLeftWhile.simps [simp del] stepRightWhile.simps [simp del]

definition previousWordBoundary :: "jsstring \<Rightarrow> int \<Rightarrow> int" where
  \<comment> \<open>if pos is 0 return 0; otherwise step left skipping whitespace, then step left skipping
      non-whitespace, then if the pointer lands on whitespace step right by one; clamp\<close>
  "previousWordBoundary t pos =
     (if pos = 0 then 0
      else
        let p = stepLeftWhile test_s t (pos - 1);
            p = stepLeftWhile test_S t p;
            p = (if test_s (charAt t p) then p + 1 else p)
        in max 0 p)"

definition nextWordBoundary :: "jsstring \<Rightarrow> int \<Rightarrow> int" where
  \<comment> \<open>if pos is at least the length return the length; otherwise step right skipping
      non-whitespace, then skip whitespace\<close>
  "nextWordBoundary t pos =
     (if pos \<ge> int (length t) then int (length t)
      else stepRightWhile test_s t (stepRightWhile test_S t pos))"

definition emitsWithEcho :: "props \<Rightarrow> state \<Rightarrow> state \<Rightarrow> bool" where
  \<comment> \<open>from st to st', either \<open>lastEmittedValueRef\<close> is as before, or it is the value of
      the one \<open>onChange\<close> that was called, followed by the report of the cursor\<close>
  "emitsWithEcho p st st' \<longleftrightarrow>
     lastEmittedValueRef st' = lastEmittedValueRef st \<or>
     emitted st' = emitted st @ OnChange (lastEmittedValueRef st') #
       (if hasOnCursorMove p then [OnCursorMove (caretOffsetRef st')] else [])"

section \<open>Properties\<close>

lemma slice_take: "0 \<le> pos \<Longrightarrow> slice s 0 pos = take (nat pos) s"
  by (cases "nat pos \<le> length s") (simp_all add: slice_def relativeIndex_def min_def)

lemma sliceFrom_drop: "0 \<le> pos \<Longrightarrow> sliceFrom s pos = drop (nat pos) s"
  by (cases "nat pos \<le> length s") (simp_all add: sliceFrom_def relativeIndex_def min_def)

lemma typingKey_handler:
  "typingKey k \<Longrightarrow> useInputHandler e p input k st = (None, batchStream p input k st)"
  by (simp add: typingKey_def useInputHandler_def pasteShortcuts_def specialKeys_def)

subsection \<open>Echo reconciliation\<close>

text \<open>
  In a render, the value effect runs when \<open>value\<close> has changed and the cursor position
  effect when \<open>cursorPosition\<close> has changed, in this order.
\<close>

lemma rerender_effects:
  "rerender (v, c) (w, d) st =
     (if d \<noteq> c then cursorPositionEffect d else id) ((if w \<noteq> v then valueEffect w else id) st)"
  by (simp add: rerender_def)



subsection \<open>Deletions at the boundaries\<close>

text \<open>
  C8. With the cursor at 0, a backward deletion leaves the state as it is, log of calls
  included: in \<open>deleteCharacter\<close>, for a Backspace key that reaches the key handler
  with no payload, and for the raw sequences DEL and BS. With the cursor at the length of
  the text, a forward deletion leaves the state as it is, in \<open>deleteCharacter\<close> and
  for a Delete key. The key handler returns without an exception.
\<close>

theorem boundary_deletions:
  "(caretOffsetRef st = 0 \<longrightarrow>
      deleteCharacter p False st = st \<and>
      (typingKey k \<and> backspace k \<longrightarrow> useInputHandler e p [] k st = (None, st)) \<and>
      (focus p \<longrightarrow> handleRawInput p (PayloadString [127]) st = st \<and>
                    handleRawInput p (PayloadString [8]) st = st)) \<and>
   (caretOffsetRef st = int (length (valueRef st)) \<longrightarrow>
      deleteCharacter p True st = st \<and>
      (typingKey k \<and> \<not> backspace k \<and> delete k \<longrightarrow> useInputHandler e p [] k st = (None, st)))"
  by (simp add: typingKey_handler batchStream_def explicitKeys_def deleteCharacter_def
      handleRawInput_def payloadSequence_def)

theorem boundary_deletions_witness:
  "caretOffsetRef ((mount (ascii ''ab'') [])\<lparr> caretOffsetRef := 0 \<rparr>) = 0 \<and>
   typingKey (noFlags\<lparr> backspace := True \<rparr>) \<and> backspace (noFlags\<lparr> backspace := True \<rparr>) \<and>
   focus allCallbacks \<and>
   deleteCharacter allCallbacks False ((mount (ascii ''ab'') [])\<lparr> caretOffsetRef := 0 \<rparr>) =
     (mount (ascii ''ab'') [])\<lparr> caretOffsetRef := 0 \<rparr> \<and>
   useInputHandler plainEnv allCallbacks [] (noFlags\<lparr> backspace := True \<rparr>)
       ((mount (ascii ''ab'') [])\<lparr> caretOffsetRef := 0 \<rparr>) =
     (None, (mount (ascii ''ab'') [])\<lparr> caretOffsetRef := 0 \<rparr>) \<and>
   handleRawInput allCallbacks (PayloadString [127]) ((mount (ascii ''ab'') [])\<lparr> caretOffsetRef := 0 \<rparr>) =
     (mount (ascii ''ab'') [])\<lparr> caretOffsetRef := 0 \<rparr> \<and>
   caretOffsetRef (mount (ascii ''ab'') []) = int (length (valueRef (mount (ascii ''ab'') []))) \<and>
   typingKey (noFlags\<lparr> delete := True \<rparr>) \<and> \<not> backspace (noFlags\<lparr> delete := True \<rparr>) \<and>
   delete (noFlags\<lparr> delete := True \<rparr>) \<and>
   deleteCharacter allCallbacks True (mount (ascii ''ab'') []) = mount (ascii ''ab'') [] \<and>
   useInputHandler plainEnv allCallbacks [] (noFlags\<lparr> delete := True \<rparr>) (mount (ascii ''ab'') []) =
     (None, mount (ascii ''ab'') [])"
proof -
  let ?s0 = "(mount (ascii ''ab'') [])\<lparr> caretOffsetRef := 0 \<rparr>"
  let ?s2 = "mount (ascii ''ab'') []"
  have h0: "caretOffsetRef ?s0 = 0" by simp
  have h2: "caretOffsetRef ?s2 = int (length (valueRef ?s2))" by (simp add: mount_def)
  have kb: "typingKey (noFlags\<lparr> backspace := True \<rparr>) \<and> backspace (noFlags\<lparr> backspace := True \<rparr>)"
    by (simp add: typingKey_def noFlags_def)
  have kd: "typingKey (noFlags\<lparr> delete := True \<rparr>) \<and> \<not> backspace (noFlags\<lparr> delete := True \<rparr>) \<and>
      delete (noFlags\<lparr> delete := True \<rparr>)"
    by (simp add: typingKey_def noFlags_def)
  have f: "focus allCallbacks" by (simp add: allCallbacks_def)
  from boundary_deletions [of ?s0 allCallbacks "noFlags\<lparr> backspace := True \<rparr>" plainEnv]
    boundary_deletions [of ?s2 allCallbacks "noFlags\<lparr> delete := True \<rparr>" plainEnv]
    h0 h2 kb kd f
  show ?thesis by blast
qed

subsection \<open>What is emitted\<close>

lemma updateValue_echo: "emitsWithEcho p st (updateValue p v (Some c) st)"
  by (simp add: emitsWithEcho_def updateValue_def updateCursor_def Let_def)

lemma echo_refl: "emitsWithEcho p st st"
  by (simp add: emitsWithEcho_def)

lemma echo_frame:
  "emitsWithEcho p (st\<lparr> lastPasteDetectedAtRef := t \<rparr>) st' = emitsWithEcho p st st'"
  "emitsWithEcho p (st\<lparr> registry := reg \<rparr>) st' = emitsWithEcho p st st'"
  by (simp_all add: emitsWithEcho_def)

lemma updateCursor_echo: "emitsWithEcho p st (updateCursor p n st)"
  by (simp add: emitsWithEcho_def updateCursor_def Let_def)

lemma deleteCharacter_echo: "emitsWithEcho p st (deleteCharacter p forward st)"
  by (simp add: deleteCharacter_def Let_def updateValue_echo echo_refl)

lemma handleInsert_echo: "emitsWithEcho p st (snd (handleInsert e p txt isPaste st))"
proof -
  have "emitsWithEcho p st (updateValue p v (Some c) (st\<lparr> registry := reg \<rparr>))" for v c reg
    using updateValue_echo [of p "st\<lparr> registry := reg \<rparr>" v c] by (simp add: echo_frame)
  then show ?thesis
    by (auto simp: handleInsert_def insertAtCaret_def Let_def updateValue_echo echo_refl
        split: sum.splits prod.splits)
qed

lemma batchStream_echo: "emitsWithEcho p st (batchStream p input k st)"
  by (auto simp: batchStream_def explicitKeys_def deleteCharacter_echo updateValue_echo echo_refl
      split: prod.splits)

lemma specialKeys_echo: "emitsWithEcho p st (specialKeys p input k st)"
  by (simp add: specialKeys_def batchStream_echo updateCursor_echo echo_refl)
    (simp add: emitsWithEcho_def)

lemma pasteShortcuts_echo: "emitsWithEcho p st (snd (pasteShortcuts e p input k st))"
  by (auto simp: pasteShortcuts_def specialKeys_echo handleInsert_echo echo_refl
      split: sum.splits option.splits)

lemma useInputHandler_echo: "emitsWithEcho p st (snd (useInputHandler e p input k st))"
proof -
  let ?st = "st\<lparr> lastPasteDetectedAtRef := now e \<rparr>"
  have a: "emitsWithEcho p st (snd (handleInsert e p s isPaste ?st))" for s isPaste
    using handleInsert_echo [of p "?st" e s isPaste] by (simp add: echo_frame)
  have b: "emitsWithEcho p st (snd (pasteShortcuts e p i k ?st))" for i
    using pasteShortcuts_echo [of p "?st" e i k] by (simp add: echo_frame)
  have c: "emitsWithEcho p st ?st"
    by (simp add: emitsWithEcho_def)
  show ?thesis
    by (auto simp: useInputHandler_def Let_def a b c pasteShortcuts_echo
        split: sum.splits option.splits)
qed

lemma handleRawInput_echo: "emitsWithEcho p st (handleRawInput p pl st)"
  by (auto simp: handleRawInput_def deleteCharacter_echo deletePreviousWord_def Let_def
      updateValue_echo moveCursorToPreviousWord_def moveCursorToNextWord_def
      updateCursor_echo echo_refl split: option.splits bool.splits)

text \<open>
  C10. The value effect calls neither \<open>onChange\<close> nor \<open>onCursorMove\<close> (the log of
  calls is as before) and leaves \<open>lastEmittedValueRef\<close>, the registry and the other
  refs alone: it writes the text and the cursor only. Neither the cursor position effect
  nor \<open>updateCursor\<close> writes \<open>lastEmittedValueRef\<close>; \<open>updateValue\<close> sets it to the
  value it emits. An event of the key handler or of the raw input listener leaves
  \<open>lastEmittedValueRef\<close> as it was, or sets it to the value of the one \<open>onChange\<close> it
  calls.
\<close>

theorem external_replacement_silent:
  "emitted (valueEffect w st) = emitted st \<and>
   lastEmittedValueRef (valueEffect w st) = lastEmittedValueRef st \<and>
   registry (valueEffect w st) = registry st \<and>
   lastPasteDetectedAtRef (valueEffect w st) = lastPasteDetectedAtRef st \<and>
   nudgeCursorOffset (valueEffect w st) = nudgeCursorOffset st \<and>
   lastEmittedValueRef (cursorPositionEffect c st) = lastEmittedValueRef st \<and>
   lastEmittedValueRef (updateCursor p n st) = lastEmittedValueRef st \<and>
   lastEmittedValueRef (updateValue p v c' st) = v \<and>
   emitsWithEcho p st (snd (useInputHandler e p input k st)) \<and>
   emitsWithEcho p st (handleRawInput p pl st)"
  by (simp add: valueEffect_def cursorPositionEffect_def updateCursor_def updateValue_def Let_def
      useInputHandler_echo handleRawInput_echo split: option.splits)

subsection \<open>The composition rule\<close>

lemma removeBefore_range:
  "0 < pos \<Longrightarrow> removeBefore t (int pos) = take (pos - 1) t @ drop pos t"
  by (simp add: removeBefore_def slice_take sliceFrom_drop nat_diff_distrib')

lemma batchStep_payloadStep:
  "batchStep (t, int pos, b) c =
     (fst (payloadStep (t, pos) c), int (snd (payloadStep (t, pos) c)),
      b \<or> c = 8 \<or> c = 127 \<or> 32 \<le> c)"
  by (cases "pos = 0")
    (auto simp: payloadStep_def backwardDeletion_def insertion_def removeBefore_range
      slice_take sliceFrom_drop of_nat_diff)

lemma payloadStep_range:
  "snd b \<le> length (fst b) \<Longrightarrow> snd (payloadStep b c) \<le> length (fst (payloadStep b c))"
  by (cases b) (auto simp: payloadStep_def backwardDeletion_def insertion_def)

lemma foldl_payloadStep_range:
  "snd b \<le> length (fst b) \<Longrightarrow>
     snd (foldl payloadStep b input) \<le> length (fst (foldl payloadStep b input))"
  by (induction input arbitrary: b) (simp_all add: payloadStep_range)

lemma foldl_batchStep:
  "foldl batchStep (t, int pos, b) input =
     (fst (foldl payloadStep (t, pos) input), int (snd (foldl payloadStep (t, pos) input)),
      b \<or> acted input)"
proof (induction input arbitrary: t pos b)
  case Nil
  then show ?case by (simp add: acted_def)
next
  case (Cons c cs)
  obtain t' pos' where step: "payloadStep (t, pos) c = (t', pos')"
    by (cases "payloadStep (t, pos) c")
  show ?case
    using Cons.IH [of t' pos' "b \<or> c = 8 \<or> c = 127 \<or> 32 \<le> c"]
    by (simp add: batchStep_payloadStep step acted_def del: batchStep.simps)
qed

lemma backwardDeletion_range:
  "snd b \<le> length (fst b) \<Longrightarrow> snd (backwardDeletion b) \<le> length (fst (backwardDeletion b))"
  by (cases b) (auto simp: backwardDeletion_def)

lemma compositionRule_range:
  "snd b \<le> length (fst b) \<Longrightarrow>
     snd (compositionRule k input b) \<le> length (fst (compositionRule k input b))"
  by (simp add: compositionRule_def foldl_payloadStep_range backwardDeletion_range)

lemma batchStart_range:
  assumes "cursorInRange st"
  shows "batchStart input k st =
     (let b = (valueRef st, nat (caretOffsetRef st));
          b' = (if backspace k \<and> 8 \<notin> set input \<and> 127 \<notin> set input then backwardDeletion b else b)
      in (fst b', int (snd b'),
          backspace k \<and> 8 \<notin> set input \<and> 127 \<notin> set input \<and> 0 < caretOffsetRef st))"
proof -
  obtain n where n: "caretOffsetRef st = int n"
    using assms by (auto simp: cursorInRange_def intro: nonneg_int_cases)
  show ?thesis
    by (cases "n = 0")
      (auto simp: batchStart_def n backwardDeletion_def removeBefore_range of_nat_diff Let_def)
qed

lemma updateValue_range:
  "pos \<le> length t \<Longrightarrow>
     updateValue p t (Some (int pos)) st =
       st\<lparr> valueRef := t, lastEmittedValueRef := t, displayValue := t, caretOffsetRef := int pos,
           emitted := emitted st @ [OnChange t] @
             (if hasOnCursorMove p then [OnCursorMove (int pos)] else []) \<rparr>"
  by (simp add: updateValue_def updateCursor_def Let_def min_def max_def)

lemma batchStream_range:
  assumes "cursorInRange st" and "input \<noteq> []"
  shows "batchStream p input k st =
     (let r = compositionRule k input (valueRef st, nat (caretOffsetRef st))
      in if acted input \<or>
            (backspace k \<and> 8 \<notin> set input \<and> 127 \<notin> set input \<and> 0 < caretOffsetRef st)
         then updateValue p (fst r) (Some (int (snd r))) st
         else explicitKeys p k st)"
  using assms
  by (simp add: batchStream_def batchStart_range Let_def foldl_batchStep compositionRule_def)


lemma explicitKeys_idle:
  assumes "cursorInRange st"
    and "\<not> (backspace k \<and> 0 < caretOffsetRef st)"
    and "backspace k \<or> \<not> delete k"
  shows "explicitKeys p k st = st"
  using assms by (auto simp: explicitKeys_def deleteCharacter_def cursorInRange_def)

lemma compositionRule_idle:
  assumes "\<not> acted input" and "\<not> (backspace k \<and> 0 < pos)"
  shows "compositionRule k input (t, pos) = (t, pos)"
proof -
  have idle: "foldl payloadStep b input = b" if "\<not> acted input" for b
    using that by (induction input arbitrary: b) (auto simp: acted_def payloadStep_def)
  have "(if backspace k \<and> 8 \<notin> set input \<and> 127 \<notin> set input then backwardDeletion (t, pos)
         else (t, pos)) = (t, pos)"
    using assms(2) by (auto simp: backwardDeletion_def)
  then show ?thesis
    using assms(1) by (simp add: compositionRule_def idle)
qed

lemma batchStream_result:
  assumes "input \<noteq> []" and "cursorInRange st"
    and "acted input \<or> backspace k \<or> \<not> delete k"
  shows
    "valueRef (batchStream p input k st) =
       fst (compositionRule k input (valueRef st, nat (caretOffsetRef st))) \<and>
     caretOffsetRef (batchStream p input k st) =
       int (snd (compositionRule k input (valueRef st, nat (caretOffsetRef st)))) \<and>
     (emitted (batchStream p input k st) = emitted st \<or>
      emitted (batchStream p input k st) =
        emitted st @
        [OnChange (fst (compositionRule k input (valueRef st, nat (caretOffsetRef st))))] @
        (if hasOnCursorMove p
         then [OnCursorMove (int (snd (compositionRule k input (valueRef st, nat (caretOffsetRef st)))))]
         else []))"
proof -
  define r where "r = compositionRule k input (valueRef st, nat (caretOffsetRef st))"
  define st' where "st' = batchStream p input k st"
  have range: "snd r \<le> length (fst r)"
    unfolding r_def using assms(2)
    by (intro compositionRule_range) (auto simp: cursorInRange_def)
  have "valueRef st' = fst r \<and> caretOffsetRef st' = int (snd r) \<and>
     (emitted st' = emitted st \<or>
      emitted st' = emitted st @ [OnChange (fst r)] @
        (if hasOnCursorMove p then [OnCursorMove (int (snd r))] else []))"
  proof (cases "acted input \<or>
      (backspace k \<and> 8 \<notin> set input \<and> 127 \<notin> set input \<and> 0 < caretOffsetRef st)")
    case True
    then have "st' = updateValue p (fst r) (Some (int (snd r))) st"
      using assms(1,2) by (simp add: st'_def batchStream_range r_def Let_def)
    then show ?thesis
      by (simp add: updateValue_range [OF range])
  next
    case False
    then have quiet: "\<not> acted input" and nodel: "\<not> (backspace k \<and> 0 < caretOffsetRef st)"
      by (auto simp: acted_def)
    have "st' = explicitKeys p k st"
      using False assms(1,2) by (auto simp: st'_def batchStream_range Let_def)
    moreover have "explicitKeys p k st = st"
      using assms(2) nodel assms(3) quiet by (intro explicitKeys_idle) auto
    moreover have "r = (valueRef st, nat (caretOffsetRef st))"
      unfolding r_def using quiet nodel by (intro compositionRule_idle) auto
    ultimately show ?thesis
      using assms(2) by (simp add: cursorInRange_def)
  qed
  then show ?thesis
    by (simp only: r_def st'_def)
qed

text \<open>
  C4. A Character event is a key descriptor that reaches the batch stream processing with
  a payload that is not empty; the cursor is within the text. The handler returns, and the
  text and the cursor it leaves are those of the composition rule: one backward deletion
  first when the Backspace flag is set and the payload holds neither code point 8 nor
  127, then the payload from left to right, where 8 and 127 delete backward, the other
  code points from 32 on are inserted at the offset and advance it, and the rest is
  ignored. The whole pass is emitted at most once, as one \<open>onChange\<close> of the final
  text. With the Backspace flag, a cursor after 0 and a payload of one code point from 32
  on other than 127, the length of the text and the cursor are as before. (A payload of
  ignored code points only, with the Delete flag and without the Backspace flag, falls
  through to the forward deletion; the last hypothesis leaves it out.)
\<close>

theorem composition_rule:
  assumes "typingKey k" and "input \<noteq> []" and "cursorInRange st"
    and "acted input \<or> backspace k \<or> \<not> delete k"
  shows
    "(let r = compositionRule k input (valueRef st, nat (caretOffsetRef st));
          st' = snd (useInputHandler e p input k st)
      in fst (useInputHandler e p input k st) = None \<and>
         valueRef st' = fst r \<and> caretOffsetRef st' = int (snd r) \<and>
         (emitted st' = emitted st \<or>
          emitted st' = emitted st @ [OnChange (fst r)] @
            (if hasOnCursorMove p then [OnCursorMove (int (snd r))] else [])) \<and>
         (backspace k \<and> 0 < caretOffsetRef st \<and> (\<exists>c. input = [c] \<and> 32 \<le> c \<and> c \<noteq> 127) \<longrightarrow>
            length (valueRef st') = length (valueRef st) \<and> caretOffsetRef st' = caretOffsetRef st))"
proof -
  define r where "r = compositionRule k input (valueRef st, nat (caretOffsetRef st))"
  define st' where "st' = snd (useInputHandler e p input k st)"
  have handler: "useInputHandler e p input k st = (None, batchStream p input k st)"
    using assms(1) by (rule typingKey_handler)
  have result: "valueRef st' = fst r \<and> caretOffsetRef st' = int (snd r) \<and>
     (emitted st' = emitted st \<or>
      emitted st' = emitted st @ [OnChange (fst r)] @
        (if hasOnCursorMove p then [OnCursorMove (int (snd r))] else []))"
    using batchStream_result [OF assms(2,3,4), of p]
    by (simp only: r_def st'_def handler snd_conv)
  have correction: "length (valueRef st') = length (valueRef st) \<and>
      caretOffsetRef st' = caretOffsetRef st"
    if bk: "backspace k" and pos: "0 < caretOffsetRef st" and one: "input = [c]"
      and printable: "32 \<le> c" and nodel: "c \<noteq> 127"
    for c
  proof -
    have "0 < nat (caretOffsetRef st)"
      using pos by simp
    then obtain n where nn: "nat (caretOffsetRef st) = Suc n"
      using gr0_implies_Suc by blast
    have le: "Suc n \<le> length (valueRef st)"
      using assms(3) nn by (auto simp: cursorInRange_def)
    have c8: "c \<noteq> 8" using printable by auto
    have "r = (take n (valueRef st) @ [c] @ drop (Suc n) (valueRef st), Suc n)"
      using c8 bk one printable nodel le
      by (simp add: r_def compositionRule_def nn payloadStep_def backwardDeletion_def
          insertion_def min_def)
    then show ?thesis
      using result le nn pos by (simp add: min_def) linarith
  qed
  have returns: "fst (useInputHandler e p input k st) = None"
    by (simp add: handler)
  show ?thesis
    unfolding Let_def r_def [symmetric] st'_def [symmetric]
    using returns result correction by blast
qed

theorem composition_rule_witness:
  "typingKey (noFlags\<lparr> backspace := True \<rparr>) \<and> [233] \<noteq> ([] :: jsstring) \<and>
   cursorInRange (mount (ascii ''cafe'') []) \<and>
   backspace (noFlags\<lparr> backspace := True \<rparr>) \<and> 0 < caretOffsetRef (mount (ascii ''cafe'') []) \<and>
   (\<exists>c :: jschar. [233] = [c] \<and> 32 \<le> c \<and> c \<noteq> 127) \<and>
   fst (useInputHandler plainEnv allCallbacks [233] (noFlags\<lparr> backspace := True \<rparr>)
     (mount (ascii ''cafe'') [])) = None \<and>
   valueRef (snd (useInputHandler plainEnv allCallbacks [233] (noFlags\<lparr> backspace := True \<rparr>)
     (mount (ascii ''cafe'') []))) = [99, 97, 102, 233] \<and>
   caretOffsetRef (snd (useInputHandler plainEnv allCallbacks [233] (noFlags\<lparr> backspace := True \<rparr>)
     (mount (ascii ''cafe'') []))) = 4 \<and>
   length (valueRef (snd (useInputHandler plainEnv allCallbacks [233] (noFlags\<lparr> backspace := True \<rparr>)
     (mount (ascii ''cafe'') [])))) = length (valueRef (mount (ascii ''cafe'') []))"
proof -
  let ?k = "noFlags\<lparr> backspace := True \<rparr>"
  let ?st = "mount (ascii ''cafe'') []"
  have h1: "typingKey ?k" by (simp add: typingKey_def noFlags_def)
  have h2: "[233] \<noteq> ([] :: jsstring)" by simp
  have h3: "cursorInRange ?st" by (simp add: cursorInRange_def mount_def)
  have h4: "acted [233] \<or> backspace ?k \<or> \<not> delete ?k" by (simp add: noFlags_def)
  have h5: "backspace ?k \<and> 0 < caretOffsetRef ?st \<and>
      (\<exists>c :: jschar. [233] = [c] \<and> 32 \<le> c \<and> c \<noteq> 127)"
    by (simp add: noFlags_def mount_def ascii_def)
  have r: "compositionRule ?k [233] (valueRef ?st, nat (caretOffsetRef ?st)) = ([99, 97, 102, 233], 4)"
    by (simp add: compositionRule_def payloadStep_def backwardDeletion_def insertion_def
        noFlags_def mount_def ascii_def)
  have len: "length (valueRef ?st) = 4"
    by (simp add: mount_def ascii_def)
  from composition_rule [OF h1 h2 h3 h4, of plainEnv allCallbacks] h5
  have "fst (useInputHandler plainEnv allCallbacks [233] ?k ?st) = None \<and>
     valueRef (snd (useInputHandler plainEnv allCallbacks [233] ?k ?st)) = [99, 97, 102, 233] \<and>
     caretOffsetRef (snd (useInputHandler plainEnv allCallbacks [233] ?k ?st)) = 4 \<and>
     length (valueRef (snd (useInputHandler plainEnv allCallbacks [233] ?k ?st))) =
       length (valueRef ?st)"
    unfolding Let_def r by (simp add: len)
  with h1 h2 h3 h5 show ?thesis
    by blast
qed

subsection \<open>Typing\<close>

lemma type_one_character:
  assumes "typingKey k" and "\<not> backspace k" and "32 \<le> c" and "c \<noteq> 127"
    and "caretOffsetRef st = int (length (valueRef st))"
  shows "valueRef (snd (useInputHandler e p [c] k st)) = valueRef st @ [c] \<and>
     caretOffsetRef (snd (useInputHandler e p [c] k st)) = int (length (valueRef st)) + 1"
proof -
  have c8: "c \<noteq> 8" using assms(3) by auto
  have range: "cursorInRange st"
    using assms(5) by (simp add: cursorInRange_def)
  have act: "acted [c] \<or> backspace k \<or> \<not> delete k"
    using assms(3) by (simp add: acted_def)
  have r: "compositionRule k [c] (valueRef st, nat (caretOffsetRef st)) =
      (valueRef st @ [c], length (valueRef st) + 1)"
    using assms c8 by (simp add: compositionRule_def payloadStep_def insertion_def)
  show ?thesis
    using batchStream_result [where input = "[c]" and p = p, OF _ range act]
    by (simp add: typingKey_handler [OF assms(1)] r)
qed

lemma typeCharacters_append:
  assumes "\<forall>(c, k) \<in> set events. 32 \<le> c \<and> c \<noteq> 127 \<and> typingKey k \<and> \<not> backspace k"
    and "caretOffsetRef st = int (length (valueRef st))"
  shows "valueRef (typeCharacters e p events st) = valueRef st @ map fst events \<and>
     caretOffsetRef (typeCharacters e p events st) = int (length (valueRef st) + length events)"
  using assms
proof (induction events arbitrary: st)
  case Nil
  then show ?case by simp
next
  case (Cons ev events)
  obtain c k where ev: "ev = (c, k)" by (cases ev)
  have one: "valueRef (snd (useInputHandler e p [c] k st)) = valueRef st @ [c] \<and>
     caretOffsetRef (snd (useInputHandler e p [c] k st)) = int (length (valueRef st)) + 1"
    using Cons.prems by (intro type_one_character) (auto simp: ev)
  have "valueRef (typeCharacters e p events (snd (useInputHandler e p [c] k st))) =
      valueRef (snd (useInputHandler e p [c] k st)) @ map fst events \<and>
     caretOffsetRef (typeCharacters e p events (snd (useInputHandler e p [c] k st))) =
      int (length (valueRef (snd (useInputHandler e p [c] k st))) + length events)"
    using Cons.prems one by (intro Cons.IH) auto
  then show ?case
    using one by (simp add: ev)
qed

text \<open>
  C9. From the empty buffer, a sequence of Character events, each of one code point from
  32 on other than 127 (DEL, which deletes) and with a key descriptor that reaches the
  batch stream processing without the Backspace flag, leaves as text the code points in
  their order and the cursor at the length of the text.
\<close>

theorem insertion_concatenation:
  assumes "\<forall>(c, k) \<in> set events. 32 \<le> c \<and> c \<noteq> 127 \<and> typingKey k \<and> \<not> backspace k"
  shows "valueRef (typeCharacters e p events (mount [] reg)) = map fst events \<and>
     caretOffsetRef (typeCharacters e p events (mount [] reg)) = int (length events)"
  using typeCharacters_append [OF assms, of "mount [] reg" e p]
  by (simp add: mount_def)

theorem insertion_concatenation_witness:
  "valueRef (typeCharacters plainEnv allCallbacks
      [(104, noFlags), (105, noFlags\<lparr> shift := True \<rparr>), (33, noFlags)] (mount [] [])) =
     [104, 105, 33] \<and>
   caretOffsetRef (typeCharacters plainEnv allCallbacks
      [(104, noFlags), (105, noFlags\<lparr> shift := True \<rparr>), (33, noFlags)] (mount [] [])) = 3"
proof -
  have h: "\<forall>(c, k) \<in> set [(104, noFlags), (105, noFlags\<lparr> shift := True \<rparr>), (33 :: jschar, noFlags)].
      32 \<le> c \<and> c \<noteq> 127 \<and> typingKey k \<and> \<not> backspace k"
    by (simp add: typingKey_def noFlags_def)
  from insertion_concatenation [OF h, of plainEnv allCallbacks "[]"]
  show ?thesis by simp
qed

subsection \<open>Word deletion\<close>

lemma skipSpaceBack_bounds: "0 \<le> pos \<Longrightarrow> 0 \<le> skipSpaceBack s pos \<and> skipSpaceBack s pos \<le> pos"
proof (induction s pos rule: skipSpaceBack.induct)
  case (1 s pos)
  show ?case
  proof (cases "pos > 0 \<and> test_s (charAt s pos)")
    case True
    then have "0 \<le> skipSpaceBack s (pos - 1) \<and> skipSpaceBack s (pos - 1) \<le> pos - 1"
      using "1.IH" by simp
    then show ?thesis
      using True by (subst (1 2) skipSpaceBack.simps) simp
  next
    case False
    then show ?thesis
      using "1.prems" by (subst (1 2) skipSpaceBack.simps) auto
  qed
qed

lemma skipWordBack_bounds: "0 \<le> pos \<Longrightarrow> 0 \<le> skipWordBack s pos \<and> skipWordBack s pos \<le> pos"
proof (induction s pos rule: skipWordBack.induct)
  case (1 s pos)
  show ?case
  proof (cases "pos > 0 \<and> test_S (charAt s pos)")
    case True
    then have "0 \<le> skipWordBack s (pos - 1) \<and> skipWordBack s (pos - 1) \<le> pos - 1"
      using "1.IH" by simp
    then show ?thesis
      using True by (subst (1 2) skipWordBack.simps) simp
  next
    case False
    then show ?thesis
      using "1.prems" by (subst (1 2) skipWordBack.simps) auto
  qed
qed

lemma findPreviousWordBoundary_bounds:
  assumes "0 \<le> cursorPos"
  shows "0 \<le> findPreviousWordBoundary s cursorPos \<and> findPreviousWordBoundary s cursorPos \<le> cursorPos"
proof (cases "cursorPos = 0")
  case True
  then show ?thesis by (simp add: findPreviousWordBoundary_def)
next
  case False
  then have start: "0 \<le> cursorPos - 1" using assms by simp
  have a: "0 \<le> skipSpaceBack s (cursorPos - 1) \<and> skipSpaceBack s (cursorPos - 1) \<le> cursorPos - 1"
    using skipSpaceBack_bounds [OF start] .
  then have b: "0 \<le> skipWordBack s (skipSpaceBack s (cursorPos - 1)) \<and>
      skipWordBack s (skipSpaceBack s (cursorPos - 1)) \<le> skipSpaceBack s (cursorPos - 1)"
    using skipWordBack_bounds by blast
  show ?thesis
    using False a b by (simp add: findPreviousWordBoundary_def Let_def)
qed

text \<open>
  With the cursor within the text, \<open>deletePreviousWord\<close> computes the boundary b
  with \<open>findPreviousWordBoundary\<close>, and b lies between 0 and the cursor. When b is the
  cursor the state is left as it is and nothing is emitted. Otherwise the text loses
  exactly the code units from b up to the cursor, the cursor becomes b, and the mutation
  is emitted once: one \<open>onChange\<close> of the new text, then \<open>onCursorMove\<close> of b when
  the owner gave that callback. With focus, the raw sequences ctrl-W, ESC DEL and ESC BS
  run \<open>deletePreviousWord\<close>.
\<close>

lemma deletePreviousWord_span:
  assumes "cursorInRange st"
  shows
    "(let b = findPreviousWordBoundary (valueRef st) (caretOffsetRef st);
          next = take (nat b) (valueRef st) @ drop (nat (caretOffsetRef st)) (valueRef st)
      in 0 \<le> b \<and> b \<le> caretOffsetRef st \<and>
         (b = caretOffsetRef st \<longrightarrow> deletePreviousWord p st = st) \<and>
         (b \<noteq> caretOffsetRef st \<longrightarrow>
            deletePreviousWord p st =
              st\<lparr> valueRef := next, lastEmittedValueRef := next, displayValue := next,
                  caretOffsetRef := b,
                  emitted := emitted st @ [OnChange next] @
                    (if hasOnCursorMove p then [OnCursorMove b] else []) \<rparr>) \<and>
         (focus p \<longrightarrow>
            handleRawInput p (PayloadString [23]) st = deletePreviousWord p st \<and>
            handleRawInput p (PayloadString [27, 127]) st = deletePreviousWord p st \<and>
            handleRawInput p (PayloadString [27, 8]) st = deletePreviousWord p st))"
proof -
  define b where "b = findPreviousWordBoundary (valueRef st) (caretOffsetRef st)"
  define nxt where "nxt = take (nat b) (valueRef st) @ drop (nat (caretOffsetRef st)) (valueRef st)"
  have pos: "0 \<le> caretOffsetRef st" and le: "caretOffsetRef st \<le> int (length (valueRef st))"
    using assms by (simp_all add: cursorInRange_def)
  have bounds: "0 \<le> b \<and> b \<le> caretOffsetRef st"
    unfolding b_def using pos by (rule findPreviousWordBoundary_bounds)
  have noop: "deletePreviousWord p st = st" if "b = caretOffsetRef st"
    using that by (simp add: deletePreviousWord_def b_def Let_def)
  have len: "nat b \<le> length nxt"
    using bounds le by (simp add: nxt_def min_def) linarith
  have step: "deletePreviousWord p st = updateValue p nxt (Some b) st"
    if "b \<noteq> caretOffsetRef st"
    using that bounds pos
    by (simp add: deletePreviousWord_def b_def [symmetric] Let_def slice_take sliceFrom_drop nxt_def)
  have upd: "updateValue p nxt (Some b) st =
      st\<lparr> valueRef := nxt, lastEmittedValueRef := nxt, displayValue := nxt, caretOffsetRef := b,
          emitted := emitted st @ [OnChange nxt] @
            (if hasOnCursorMove p then [OnCursorMove b] else []) \<rparr>"
    using updateValue_range [OF len, of p st] bounds by simp
  have del: "deletePreviousWord p st =
      st\<lparr> valueRef := nxt, lastEmittedValueRef := nxt, displayValue := nxt, caretOffsetRef := b,
          emitted := emitted st @ [OnChange nxt] @
            (if hasOnCursorMove p then [OnCursorMove b] else []) \<rparr>"
    if "b \<noteq> caretOffsetRef st"
    using step [OF that] upd by simp
  have raw: "handleRawInput p (PayloadString [23]) st = deletePreviousWord p st \<and>
      handleRawInput p (PayloadString [27, 127]) st = deletePreviousWord p st \<and>
      handleRawInput p (PayloadString [27, 8]) st = deletePreviousWord p st" if "focus p"
    using that by (simp add: handleRawInput_def payloadSequence_def)
  show ?thesis
    unfolding Let_def b_def [symmetric] nxt_def [symmetric]
    using bounds noop del raw by blast
qed

subsection \<open>Paste classification\<close>

lemma insertAtCaret_range:
  assumes "cursorInRange st"
  shows "insertAtCaret p ins st =
     (let t = take (nat (caretOffsetRef st)) (valueRef st) @ ins @
              drop (nat (caretOffsetRef st)) (valueRef st);
          c = caretOffsetRef st + int (length ins)
      in st\<lparr> valueRef := t, lastEmittedValueRef := t, displayValue := t, caretOffsetRef := c,
             emitted := emitted st @ [OnChange t] @
               (if hasOnCursorMove p then [OnCursorMove c] else []) \<rparr>)"
proof -
  define t where "t = take (nat (caretOffsetRef st)) (valueRef st) @ ins @
              drop (nat (caretOffsetRef st)) (valueRef st)"
  have pos: "0 \<le> caretOffsetRef st" and le: "caretOffsetRef st \<le> int (length (valueRef st))"
    using assms by (simp_all add: cursorInRange_def)
  have len: "nat (caretOffsetRef st) + length ins \<le> length t"
    using pos le by (simp add: t_def min_def) linarith
  have c: "int (nat (caretOffsetRef st) + length ins) = caretOffsetRef st + int (length ins)"
    using pos by simp
  have "insertAtCaret p ins st = updateValue p t (Some (caretOffsetRef st + int (length ins))) st"
    using pos by (simp add: insertAtCaret_def Let_def slice_take sliceFrom_drop t_def)
  also have "\<dots> = st\<lparr> valueRef := t, lastEmittedValueRef := t, displayValue := t,
       caretOffsetRef := caretOffsetRef st + int (length ins),
       emitted := emitted st @ [OnChange t] @
         (if hasOnCursorMove p then [OnCursorMove (caretOffsetRef st + int (length ins))] else []) \<rparr>"
    using updateValue_range [OF len, of p st] by (simp only: c)
  finally show ?thesis
    by (simp add: Let_def t_def)
qed

lemma batchStream_registry: "registry (batchStream p input k st) = registry st"
  by (simp add: batchStream_def explicitKeys_def deleteCharacter_def updateValue_def
      updateCursor_def Let_def split: prod.splits)

lemma handleInsert_placeholder:
  assumes "isPaste \<or> length txt > 5"
    and "translatePasteForImages e txt = Inr translated"
    and "countLines translated > 5 \<or> length txt > 500"
    and "allocatePaste e (registry st) translated = Inr (pasteId, reg)"
  shows "handleInsert e p txt isPaste st =
     (None, insertAtCaret p (pastePlaceholder pasteId (countLines translated))
              (st\<lparr> registry := reg \<rparr>))"
  using assms by (auto simp: handleInsert_def Let_def)

lemma handleInsert_inline:
  assumes "isPaste \<or> length txt > 5"
    and "translatePasteForImages e txt = Inr translated"
    and "\<not> (countLines translated > 5 \<or> length txt > 500)"
  shows "handleInsert e p txt isPaste st = (None, insertAtCaret p (sanitizeForDisplay translated) st)"
  using assms by (auto simp: handleInsert_def Let_def)

text \<open>
  \<open>handleInsert\<close> classifies the text it is given when the paste flag is set or the
  text is longer than 5 code units; the cursor is within the text and the translator
  returns. When the translated text has more than 5 lines or the given text more than 500
  code units, \<open>allocatePaste\<close> is called on the registry with the translated text, its
  registry is the new one, and exactly the placeholder token with its id and the line
  count is inserted at the cursor. Otherwise the translated text, its line breaks replaced
  by the glyph, is inserted at the cursor and the registry is as before. In the key
  handler, a paste-flagged payload whose translation is not empty goes to
  \<open>handleInsert\<close> with the paste flag.
\<close>

lemma handleInsert_classification:
  assumes "isPaste \<or> length txt > 5"
    and "translatePasteForImages e txt = Inr translated"
    and "cursorInRange st"
  shows
    "(countLines translated > 5 \<or> length txt > 500 \<longrightarrow>
        (\<forall>pasteId reg. allocatePaste e (registry st) translated = Inr (pasteId, reg) \<longrightarrow>
           fst (handleInsert e p txt isPaste st) = None \<and>
           registry (snd (handleInsert e p txt isPaste st)) = reg \<and>
           valueRef (snd (handleInsert e p txt isPaste st)) =
             take (nat (caretOffsetRef st)) (valueRef st) @
             pastePlaceholder pasteId (countLines translated) @
             drop (nat (caretOffsetRef st)) (valueRef st) \<and>
           caretOffsetRef (snd (handleInsert e p txt isPaste st)) =
             caretOffsetRef st + int (length (pastePlaceholder pasteId (countLines translated))))) \<and>
     (\<not> (countLines translated > 5 \<or> length txt > 500) \<longrightarrow>
        fst (handleInsert e p txt isPaste st) = None \<and>
        registry (snd (handleInsert e p txt isPaste st)) = registry st \<and>
        valueRef (snd (handleInsert e p txt isPaste st)) =
          take (nat (caretOffsetRef st)) (valueRef st) @ sanitizeForDisplay translated @
          drop (nat (caretOffsetRef st)) (valueRef st) \<and>
        caretOffsetRef (snd (handleInsert e p txt isPaste st)) =
          caretOffsetRef st + int (length (sanitizeForDisplay translated))) \<and>
     (\<forall>k input t. isPasted k \<and> translatePasteForImages e input = Inr t \<and> t \<noteq> [] \<longrightarrow>
        useInputHandler e p input k st =
          handleInsert e p t True (st\<lparr> lastPasteDetectedAtRef := now e \<rparr>))"
  (is "?large \<and> ?small \<and> ?pasted")
proof -
  have range: "cursorInRange (st\<lparr> registry := reg \<rparr>)" for reg
    using assms(3) by (simp add: cursorInRange_def)
  have large: ?large
    using assms(1,2)
    by (auto simp: handleInsert_placeholder insertAtCaret_range [OF range] Let_def)
  have small: ?small
    using assms(1,2)
    by (auto simp: handleInsert_inline insertAtCaret_range [OF assms(3)] Let_def)
  have pasted: ?pasted
    by (simp add: useInputHandler_def Let_def)
  show ?thesis
    using large small pasted by blast
qed

text \<open>
  A payload that is not paste-flagged and reaches the batch stream processing never goes
  to \<open>handleInsert\<close>, whatever its length: the loop inserts its code points from 32 on
  one by one, the registry is as before.
\<close>

lemma typed_payload_unclassified:
  "typingKey k \<Longrightarrow>
     useInputHandler e p input k st = (None, batchStream p input k st) \<and>
     registry (batchStream p input k st) = registry st"
  by (simp add: typingKey_handler batchStream_registry)

text \<open>
  C2. Six lines of one letter each, 11 code units and 6 lines, arrive as a Character
  payload without the paste flag. \<open>handleInsert\<close>, given this text without the paste
  flag, takes it for large, allocates a record with the full text and inserts the
  placeholder token \<open>[Pasted text #1 +6 lines]\<close>; a paste-flagged payload of the same text
  goes that way. The key handler never gives \<open>handleInsert\<close> a text without the paste
  flag (the wrapper \<open>handleStringInsert\<close> has no caller): the batch stream processing
  inserts the six letters, drops the line feeds, inserts no placeholder and allocates
  nothing.
\<close>

theorem manual_insertion_not_classified:
  "\<not> isPasted noFlags \<and> length sixLines = 11 \<and> countLines sixLines = 6 \<and>
   useInputHandler plainEnv allCallbacks sixLines noFlags (mount [] []) =
     (None, (mount [] [])\<lparr> valueRef := ascii ''abcdef'', lastEmittedValueRef := ascii ''abcdef'',
        displayValue := ascii ''abcdef'', caretOffsetRef := 6,
        emitted := [OnChange (ascii ''abcdef''), OnCursorMove 6] \<rparr>) \<and>
   registry (snd (useInputHandler plainEnv allCallbacks sixLines noFlags (mount [] []))) = [] \<and>
   valueRef (snd (handleInsert plainEnv allCallbacks sixLines False (mount [] []))) =
     ascii ''[Pasted text #1 +6 lines]'' \<and>
   registry (snd (handleInsert plainEnv allCallbacks sixLines False (mount [] []))) =
     [(1, sixLines)] \<and>
   valueRef (snd (useInputHandler plainEnv allCallbacks sixLines (noFlags\<lparr> isPasted := True \<rparr>)
     (mount [] []))) = ascii ''[Pasted text #1 +6 lines]'' \<and>
   registry (snd (useInputHandler plainEnv allCallbacks sixLines (noFlags\<lparr> isPasted := True \<rparr>)
     (mount [] []))) = [(1, sixLines)]"
  by code_simp

subsection \<open>Failing collaborators\<close>

text \<open>
  A pasted \<open>hi\<close> with a translator that throws, and six pasted lines with a registry
  whose allocation throws: the exception leaves the key handler and the text is still
  empty.
\<close>

theorem failure_fallback_counterexample:
  "useInputHandler failingTranslator allCallbacks (ascii ''hi'') (noFlags\<lparr> isPasted := True \<rparr>)
     (mount [] []) =
     (Some TranslatorThrew, (mount [] [])\<lparr> lastPasteDetectedAtRef := 5 \<rparr>) \<and>
   useInputHandler failingRegistry allCallbacks sixLines (noFlags\<lparr> isPasted := True \<rparr>)
     (mount [] []) =
     (Some AllocateThrew, (mount [] [])\<lparr> lastPasteDetectedAtRef := 5 \<rparr>) \<and>
   valueRef ((mount [] [])\<lparr> lastPasteDetectedAtRef := 5 \<rparr>) = [] \<and>
   sanitizeForDisplay (ascii ''hi'') = ascii ''hi''"
  by code_simp

text \<open>
  C5. Neither \<open>handleInsert\<close> nor the key handler catches an exception.
  When the translator throws, or the allocation throws for a text over the thresholds,
  the exception leaves \<open>handleInsert\<close> with the state as it was, and leaves the key
  handler with nothing changed but the time of the last paste: no text is inserted, the
  cursor stays, and nothing is emitted.
\<close>

theorem failure_propagates:
  "(isPasted k \<and> translatePasteForImages e input = Inl x \<longrightarrow>
      useInputHandler e p input k st = (Some x, st\<lparr> lastPasteDetectedAtRef := now e \<rparr>)) \<and>
   ((isPaste \<or> length txt > 5) \<and> translatePasteForImages e txt = Inl x \<longrightarrow>
      handleInsert e p txt isPaste st = (Some x, st)) \<and>
   ((isPaste \<or> length txt > 5) \<and> translatePasteForImages e txt = Inr translated \<and>
    (length txt > 500 \<or> countLines translated > 5) \<and>
    allocatePaste e (registry st) translated = Inl x \<longrightarrow>
      handleInsert e p txt isPaste st = (Some x, st)) \<and>
   (isPasted k \<and> translatePasteForImages e input = Inr txt \<and> txt \<noteq> [] \<and>
    (translatePasteForImages e txt = Inl x \<or>
     translatePasteForImages e txt = Inr translated \<and>
     (length txt > 500 \<or> countLines translated > 5) \<and>
     allocatePaste e (registry st) translated = Inl x) \<longrightarrow>
      useInputHandler e p input k st = (Some x, st\<lparr> lastPasteDetectedAtRef := now e \<rparr>))"
  by (auto simp: useInputHandler_def handleInsert_def Let_def)

theorem failure_propagates_witness:
  "isPasted (noFlags\<lparr> isPasted := True \<rparr>) \<and>
   translatePasteForImages failingTranslator (ascii ''hi'') = Inl TranslatorThrew \<and>
   useInputHandler failingTranslator allCallbacks (ascii ''hi'') (noFlags\<lparr> isPasted := True \<rparr>)
     (mount [] []) =
     (Some TranslatorThrew, (mount [] [])\<lparr> lastPasteDetectedAtRef := now failingTranslator \<rparr>) \<and>
   handleInsert failingTranslator allCallbacks (ascii ''hi'') True (mount [] []) =
     (Some TranslatorThrew, mount [] []) \<and>
   translatePasteForImages failingRegistry sixLines = Inr sixLines \<and> sixLines \<noteq> [] \<and>
   (length sixLines > 500 \<or> countLines sixLines > 5) \<and>
   allocatePaste failingRegistry (registry (mount [] [])) sixLines = Inl AllocateThrew \<and>
   handleInsert failingRegistry allCallbacks sixLines True (mount [] []) =
     (Some AllocateThrew, mount [] []) \<and>
   useInputHandler failingRegistry allCallbacks sixLines (noFlags\<lparr> isPasted := True \<rparr>)
     (mount [] []) =
     (Some AllocateThrew, (mount [] [])\<lparr> lastPasteDetectedAtRef := now failingRegistry \<rparr>)"
proof -
  let ?k = "noFlags\<lparr> isPasted := True \<rparr>"
  let ?st = "mount [] []"
  have k: "isPasted ?k" by simp
  have t1: "translatePasteForImages failingTranslator (ascii ''hi'') = Inl TranslatorThrew"
    by (simp add: failingTranslator_def)
  have t2: "translatePasteForImages failingRegistry sixLines = Inr sixLines"
    by (simp add: failingRegistry_def plainEnv_def)
  have ne: "sixLines \<noteq> []" by (simp add: sixLines_def)
  have big: "length sixLines > 500 \<or> countLines sixLines > 5"
    by (simp add: sixLines_def countLines_def)
  have a: "allocatePaste failingRegistry (registry ?st) sixLines = Inl AllocateThrew"
    by (simp add: failingRegistry_def)
  note translator = failure_propagates [of ?k failingTranslator "ascii ''hi''" TranslatorThrew
      allCallbacks ?st True "ascii ''hi''"]
  note allocation = failure_propagates [of ?k failingRegistry sixLines AllocateThrew
      allCallbacks ?st True sixLines sixLines]
  from translator k t1
  have 1: "useInputHandler failingTranslator allCallbacks (ascii ''hi'') ?k ?st =
      (Some TranslatorThrew, ?st\<lparr> lastPasteDetectedAtRef := now failingTranslator \<rparr>)"
    and 2: "handleInsert failingTranslator allCallbacks (ascii ''hi'') True ?st =
      (Some TranslatorThrew, ?st)"
    by blast+
  from allocation k t2 ne big a
  have 3: "handleInsert failingRegistry allCallbacks sixLines True ?st = (Some AllocateThrew, ?st)"
    and 4: "useInputHandler failingRegistry allCallbacks sixLines ?k ?st =
      (Some AllocateThrew, ?st\<lparr> lastPasteDetectedAtRef := now failingRegistry \<rparr>)"
    by blast+
  from k t1 1 2 t2 ne big a 3 4 show ?thesis
    by blast
qed


subsection \<open>The cursor invariant\<close>

lemma updateCursor_inRange: "cursorInRange (updateCursor p n st)"
  by (simp add: updateCursor_def cursorInRange_def Let_def)

lemma updateValue_inRange: "cursorInRange (updateValue p v (Some c) st)"
  by (simp add: updateValue_def updateCursor_def cursorInRange_def Let_def)

lemma valueEffect_inRange: "cursorInRange st \<Longrightarrow> cursorInRange (valueEffect w st)"
  by (simp add: valueEffect_def cursorInRange_def)

lemma deleteCharacter_inRange: "cursorInRange st \<Longrightarrow> cursorInRange (deleteCharacter p forward st)"
  by (simp add: deleteCharacter_def Let_def updateValue_inRange)

lemma handleInsert_inRange:
  "cursorInRange st \<Longrightarrow> cursorInRange (snd (handleInsert e p txt isPaste st))"
  by (auto simp: handleInsert_def insertAtCaret_def Let_def updateValue_inRange
      split: sum.splits prod.splits)

lemma batchStream_inRange: "cursorInRange st \<Longrightarrow> cursorInRange (batchStream p input k st)"
  by (auto simp: batchStream_def explicitKeys_def deleteCharacter_inRange updateValue_inRange
      split: prod.splits)

lemma cursorInRange_frame:
  "cursorInRange (st\<lparr> emitted := x \<rparr>) = cursorInRange st"
  "cursorInRange (st\<lparr> lastPasteDetectedAtRef := t \<rparr>) = cursorInRange st"
  "cursorInRange (st\<lparr> registry := reg \<rparr>) = cursorInRange st"
  by (simp_all add: cursorInRange_def)

lemma specialKeys_inRange: "cursorInRange st \<Longrightarrow> cursorInRange (specialKeys p input k st)"
  by (simp add: specialKeys_def batchStream_inRange updateCursor_inRange cursorInRange_frame)

lemma pasteShortcuts_inRange:
  "cursorInRange st \<Longrightarrow> cursorInRange (snd (pasteShortcuts e p input k st))"
  by (auto simp: pasteShortcuts_def specialKeys_inRange handleInsert_inRange
      split: sum.splits option.splits)

lemma useInputHandler_inRange:
  assumes "cursorInRange st"
  shows "cursorInRange (snd (useInputHandler e p input k st))"
proof -
  have "cursorInRange (st\<lparr> lastPasteDetectedAtRef := now e \<rparr>)"
    using assms by (simp add: cursorInRange_def)
  then show ?thesis
    using assms
    by (auto simp: useInputHandler_def Let_def pasteShortcuts_inRange handleInsert_inRange
        split: sum.splits option.splits)
qed

lemma handleRawInput_inRange:
  "cursorInRange st \<Longrightarrow> cursorInRange (handleRawInput p pl st)"
  by (auto simp: handleRawInput_def deleteCharacter_inRange deletePreviousWord_def Let_def
      updateValue_inRange moveCursorToPreviousWord_def moveCursorToNextWord_def
      updateCursor_inRange split: option.splits bool.splits)

lemma mount_inRange: "cursorInRange (mount v reg)"
  by (simp add: mount_def cursorInRange_def)

lemma cursor_invariant_elsewhere:
  assumes "cursorInRange st"
  shows "cursorInRange (valueEffect w st) \<and> cursorInRange (updateCursor p n st) \<and>
     cursorInRange (updateValue p v (Some c) st) \<and>
     cursorInRange (deleteCharacter p forward st) \<and>
     cursorInRange (snd (handleInsert e p txt isPaste st)) \<and>
     cursorInRange (snd (useInputHandler e p input k st)) \<and>
     cursorInRange (handleRawInput p pl st)"
  using assms
  by (simp add: valueEffect_inRange updateCursor_inRange updateValue_inRange
      deleteCharacter_inRange handleInsert_inRange useInputHandler_inRange handleRawInput_inRange)

text \<open>
  C3. The invariant \<open>0 \<le> cursor \<le> length(text)\<close> holds after mounting and is kept by
  the value effect, by \<open>updateCursor\<close>, which clamps, and by every key and raw input
  event (the lemmas above). The cursor position effect breaks it: it writes the offset
  the owner gives without clamping. On the text \<open>abc\<close> the offset 10 leaves the cursor
  at 10, and the offset -1 leaves it at -1; the render then draws the cursor at 0, and a
  typed \<open>x\<close> goes between b and c.
\<close>

theorem cursor_position_unclamped:
  "caretOffsetRef (cursorPositionEffect (Some 10) (mount (ascii ''abc'') [])) = 10 \<and>
   valueRef (cursorPositionEffect (Some 10) (mount (ascii ''abc'') [])) = ascii ''abc'' \<and>
   \<not> cursorInRange (cursorPositionEffect (Some 10) (mount (ascii ''abc'') [])) \<and>
   caretOffsetRef (cursorPositionEffect (Some (- 1)) (mount (ascii ''abc'') [])) = - 1 \<and>
   \<not> cursorInRange (cursorPositionEffect (Some (- 1)) (mount (ascii ''abc'') [])) \<and>
   cursorIndex (cursorPositionEffect (Some (- 1)) (mount (ascii ''abc'') [])) = 0 \<and>
   valueRef (snd (useInputHandler plainEnv allCallbacks [120] noFlags
     (cursorPositionEffect (Some (- 1)) (mount (ascii ''abc'') [])))) = ascii ''abxc''"
  by code_simp

subsection \<open>Word boundaries\<close>

lemma stepLeftWhile_bounds:
  "- 1 \<le> p \<Longrightarrow> - 1 \<le> stepLeftWhile P t p \<and> stepLeftWhile P t p \<le> p"
proof (induction P t p rule: stepLeftWhile.induct)
  case (1 P t p)
  show ?case
  proof (cases "0 \<le> p \<and> P (charAt t p)")
    case True
    then have "- 1 \<le> stepLeftWhile P t (p - 1) \<and> stepLeftWhile P t (p - 1) \<le> p - 1"
      using "1.IH" by simp
    then show ?thesis
      using True by (subst (1 2) stepLeftWhile.simps) simp
  next
    case False
    then show ?thesis
      using "1.prems" by (subst (1 2) stepLeftWhile.simps) auto
  qed
qed

lemma stepLeftWhile_stops:
  "0 \<le> stepLeftWhile P t p \<Longrightarrow> \<not> P (charAt t (stepLeftWhile P t p))"
proof (induction P t p rule: stepLeftWhile.induct)
  case (1 P t p)
  show ?case
  proof (cases "0 \<le> p \<and> P (charAt t p)")
    case True
    then have eq: "stepLeftWhile P t p = stepLeftWhile P t (p - 1)"
      by (subst stepLeftWhile.simps) simp
    show ?thesis
      using "1.IH" True "1.prems" by (simp add: eq)
  next
    case False
    then have eq: "stepLeftWhile P t p = p"
      by (subst stepLeftWhile.simps) auto
    show ?thesis
      using False "1.prems" by (simp add: eq)
  qed
qed

lemma skipSpaceBack_stepLeftWhile:
  "0 \<le> p \<Longrightarrow> skipSpaceBack t p = max 0 (stepLeftWhile test_s t p)"
proof (induction t p rule: skipSpaceBack.induct)
  case (1 t p)
  show ?case
  proof (cases "p > 0 \<and> test_s (charAt t p)")
    case True
    then have "skipSpaceBack t (p - 1) = max 0 (stepLeftWhile test_s t (p - 1))"
      using "1.IH" by simp
    moreover have "skipSpaceBack t p = skipSpaceBack t (p - 1)"
      using True by (subst skipSpaceBack.simps) simp
    moreover have "stepLeftWhile test_s t p = stepLeftWhile test_s t (p - 1)"
      using True by (subst stepLeftWhile.simps) simp
    ultimately show ?thesis by simp
  next
    case False
    then have code: "skipSpaceBack t p = p"
      by (subst skipSpaceBack.simps) auto
    show ?thesis
    proof (cases "p = 0")
      case True
      have "stepLeftWhile test_s t 0 = (if test_s (charAt t 0) then stepLeftWhile test_s t (- 1) else 0)"
        by (subst stepLeftWhile.simps) simp
      moreover have "stepLeftWhile test_s t (- 1) = - 1"
        by (subst stepLeftWhile.simps) simp
      ultimately show ?thesis
        using True code by simp
    next
      case False
      then have "stepLeftWhile test_s t p = p"
        using \<open>\<not> (p > 0 \<and> test_s (charAt t p))\<close> "1.prems"
        by (subst stepLeftWhile.simps) auto
      then show ?thesis
        using code "1.prems" by simp
    qed
  qed
qed

lemma skipWordBack_stepLeftWhile:
  "0 \<le> p \<Longrightarrow> skipWordBack t p = max 0 (stepLeftWhile test_S t p)"
proof (induction t p rule: skipWordBack.induct)
  case (1 t p)
  show ?case
  proof (cases "p > 0 \<and> test_S (charAt t p)")
    case True
    then have "skipWordBack t (p - 1) = max 0 (stepLeftWhile test_S t (p - 1))"
      using "1.IH" by simp
    moreover have "skipWordBack t p = skipWordBack t (p - 1)"
      using True by (subst skipWordBack.simps) simp
    moreover have "stepLeftWhile test_S t p = stepLeftWhile test_S t (p - 1)"
      using True by (subst stepLeftWhile.simps) simp
    ultimately show ?thesis by simp
  next
    case False
    then have code: "skipWordBack t p = p"
      by (subst skipWordBack.simps) auto
    show ?thesis
    proof (cases "p = 0")
      case True
      have "stepLeftWhile test_S t 0 = (if test_S (charAt t 0) then stepLeftWhile test_S t (- 1) else 0)"
        by (subst stepLeftWhile.simps) simp
      moreover have "stepLeftWhile test_S t (- 1) = - 1"
        by (subst stepLeftWhile.simps) simp
      ultimately show ?thesis
        using True code by simp
    next
      case False
      then have "stepLeftWhile test_S t p = p"
        using \<open>\<not> (p > 0 \<and> test_S (charAt t p))\<close> "1.prems"
        by (subst stepLeftWhile.simps) auto
      then show ?thesis
        using code "1.prems" by simp
    qed
  qed
qed

lemma stepLeftWhile_outside: "p < 0 \<Longrightarrow> stepLeftWhile P t p = p"
  by (subst stepLeftWhile.simps) simp

lemma charAt_inside: "0 \<le> p \<Longrightarrow> p < int (length t) \<Longrightarrow> test_s (charAt t p) \<or> test_S (charAt t p)"
  by (simp add: charAt_def test_s_def test_S_def)

lemma charAt_outside: "p < 0 \<Longrightarrow> \<not> test_s (charAt t p)"
  by (simp add: charAt_def test_s_def)


text \<open>
  With the cursor within the text, \<open>findPreviousWordBoundary\<close> gives the boundary of
  the specification, except where that boundary is 1: there it gives 0. Its loops and its
  last test all ask for \<open>pos > 0\<close>, so the character at index 0 is never tested.
\<close>

lemma findPreviousWordBoundary_previousWordBoundary:
  assumes "0 \<le> pos" and "pos \<le> int (length t)"
  shows "findPreviousWordBoundary t pos =
     (if previousWordBoundary t pos = 1 then 0 else previousWordBoundary t pos)"
proof (cases "pos = 0")
  case True
  then show ?thesis
    by (simp add: findPreviousWordBoundary_def previousWordBoundary_def)
next
  case False
  define q1 where "q1 = stepLeftWhile test_s t (pos - 1)"
  define q2 where "q2 = stepLeftWhile test_S t q1"
  define p2 where "p2 = skipWordBack t (max 0 q1)"
  have start: "0 \<le> pos - 1"
    using False assms(1) by simp
  have b1: "- 1 \<le> q1 \<and> q1 \<le> pos - 1"
    unfolding q1_def using start by (intro stepLeftWhile_bounds) simp
  have b2: "- 1 \<le> q2 \<and> q2 \<le> q1"
    unfolding q2_def using b1 by (intro stepLeftWhile_bounds) simp
  have code: "findPreviousWordBoundary t pos =
      max 0 (if p2 > 0 \<and> test_s (charAt t p2) then p2 + 1 else p2)"
    using False start
    by (simp add: findPreviousWordBoundary_def Let_def skipSpaceBack_stepLeftWhile q1_def p2_def)
  have spec: "previousWordBoundary t pos = max 0 (if test_s (charAt t q2) then q2 + 1 else q2)"
    using False by (simp add: previousWordBoundary_def Let_def q1_def q2_def)
  have p2: "p2 = max 0 (stepLeftWhile test_S t (max 0 q1))"
    unfolding p2_def by (intro skipWordBack_stepLeftWhile) simp
  show ?thesis
  proof (cases "q1 < 0")
    case True
    have "- 1 \<le> stepLeftWhile test_S t 0 \<and> stepLeftWhile test_S t 0 \<le> 0"
      by (intro stepLeftWhile_bounds) simp
    then have "p2 = 0"
      using True p2 by (simp add: max_def)
    moreover have "q2 = q1"
      unfolding q2_def using True by (rule stepLeftWhile_outside)
    ultimately show ?thesis
      using True by (simp add: code spec charAt_outside)
  next
    case False
    then have p2': "p2 = max 0 q2"
      using p2 by (simp add: q2_def max_def)
    consider "q2 < 0" | "q2 = 0" | "q2 > 0"
      by linarith
    then show ?thesis
    proof cases
      case 1
      then show ?thesis
        by (simp add: code spec p2' charAt_outside)
    next
      case 2
      then show ?thesis
        by (simp add: code spec p2')
    next
      case 3
      have "\<not> test_S (charAt t q2)"
        unfolding q2_def using 3 by (intro stepLeftWhile_stops) (simp add: q2_def)
      moreover have "test_s (charAt t q2) \<or> test_S (charAt t q2)"
        using 3 b1 b2 assms(2) by (intro charAt_inside) auto
      ultimately have "test_s (charAt t q2)"
        by blast
      then show ?thesis
        using 3 by (simp add: code spec p2')
    qed
  qed
qed

text \<open>\<open>findNextWordBoundary\<close> is the next boundary of the specification.\<close>

lemma skipWordForward_stepRightWhile: "skipWordForward t p = stepRightWhile test_S t p"
proof (induction t p rule: skipWordForward.induct)
  case (1 t p)
  show ?case
    using "1.IH"
    by (subst skipWordForward.simps, subst stepRightWhile.simps) simp
qed

lemma skipSpaceForward_stepRightWhile: "skipSpaceForward t p = stepRightWhile test_s t p"
proof (induction t p rule: skipSpaceForward.induct)
  case (1 t p)
  show ?case
    using "1.IH"
    by (subst skipSpaceForward.simps, subst stepRightWhile.simps) simp
qed

lemma findNextWordBoundary_nextWordBoundary: "findNextWordBoundary t pos = nextWordBoundary t pos"
  by (simp add: findNextWordBoundary_def nextWordBoundary_def Let_def
      skipWordForward_stepRightWhile skipSpaceForward_stepRightWhile)

lemma word_boundary_edges:
  "findPreviousWordBoundary t 0 = 0"
  "int (length t) \<le> pos \<Longrightarrow> findNextWordBoundary t pos = int (length t)"
  by (simp_all add: findPreviousWordBoundary_def findNextWordBoundary_def)

text \<open>
  C6. On \<open>hello world\<close> the previous boundary from 11 and the next boundary from 0
  are both 6. On a space followed by \<open>x\<close>, from offset 2, stepping left over the
  word lands on the space at index 0 and the boundary of the specification is 1, the start
  of the word; \<open>findPreviousWordBoundary\<close> returns 0, and ctrl-W removes the space
  together with the word.
\<close>

theorem previous_boundary_after_leading_space:
  "findPreviousWordBoundary (ascii '' x'') 2 = 0 \<and>
   previousWordBoundary (ascii '' x'') 2 = 1 \<and>
   findPreviousWordBoundary (ascii ''hello world'') 11 = 6 \<and>
   findNextWordBoundary (ascii ''hello world'') 0 = 6 \<and>
   valueRef (handleRawInput allCallbacks (PayloadString [23]) (mount (ascii '' x'') [])) = []"
  by code_simp

subsection \<open>Word deletion against the specified boundary\<close>

text \<open>
  With the cursor within the text, the span that \<open>deletePreviousWord\<close> removes starts
  at the previous word boundary of the specification, except where that boundary is 1:
  there the span starts at 0.
\<close>

lemma deletePreviousWord_specified:
  assumes "cursorInRange st"
  shows
    "(let s = previousWordBoundary (valueRef st) (caretOffsetRef st);
          b = (if s = 1 then 0 else s);
          next = take (nat b) (valueRef st) @ drop (nat (caretOffsetRef st)) (valueRef st)
      in (b = caretOffsetRef st \<longrightarrow> deletePreviousWord p st = st) \<and>
         (b \<noteq> caretOffsetRef st \<longrightarrow>
            deletePreviousWord p st =
              st\<lparr> valueRef := next, lastEmittedValueRef := next, displayValue := next,
                  caretOffsetRef := b,
                  emitted := emitted st @ [OnChange next] @
                    (if hasOnCursorMove p then [OnCursorMove b] else []) \<rparr>))"
proof -
  have "findPreviousWordBoundary (valueRef st) (caretOffsetRef st) =
      (if previousWordBoundary (valueRef st) (caretOffsetRef st) = 1 then 0
       else previousWordBoundary (valueRef st) (caretOffsetRef st))"
    using assms by (intro findPreviousWordBoundary_previousWordBoundary) (simp_all add: cursorInRange_def)
  then show ?thesis
    using deletePreviousWord_span [OF assms, of p] by (simp add: Let_def)
qed

text \<open>
  C7. On a space followed by \<open>x\<close>, with the cursor at 2, the previous word boundary is
  1 and the span from 1 to 2 is the word: removing it leaves the space and the cursor at
  1. The raw sequence ctrl-W removes the span from 0 to 2: it leaves the empty text and the
  cursor at 0, in one mutation. The boundary it uses is the one of
  \<open>findPreviousWordBoundary\<close>, which never tests index 0. Away from a leading space
  the span is the specified one: on \<open>foo bar\<close> followed by a space, with the cursor at 8,
  the boundary is 4 and ctrl-W leaves \<open>foo\<close> and a space with the cursor at 4; at cursor
  0 nothing changes and nothing is emitted.
\<close>

theorem word_deletion_after_leading_space:
  "previousWordBoundary (ascii '' x'') 2 = 1 \<and>
   take 1 (ascii '' x'') @ drop 2 (ascii '' x'') = ascii '' '' \<and>
   valueRef (handleRawInput allCallbacks (PayloadString [23]) (mount (ascii '' x'') [])) = [] \<and>
   caretOffsetRef (handleRawInput allCallbacks (PayloadString [23]) (mount (ascii '' x'') [])) = 0 \<and>
   emitted (handleRawInput allCallbacks (PayloadString [23]) (mount (ascii '' x'') [])) =
     [OnChange [], OnCursorMove 0] \<and>
   previousWordBoundary (ascii ''foo bar '') 8 = 4 \<and>
   valueRef (handleRawInput allCallbacks (PayloadString [23]) (mount (ascii ''foo bar '') [])) =
     ascii ''foo '' \<and>
   caretOffsetRef (handleRawInput allCallbacks (PayloadString [23]) (mount (ascii ''foo bar '') [])) = 4 \<and>
   emitted (handleRawInput allCallbacks (PayloadString [23]) (mount (ascii ''foo bar '') [])) =
     [OnChange (ascii ''foo ''), OnCursorMove 4] \<and>
   handleRawInput allCallbacks (PayloadString [23]) ((mount (ascii ''ab'') [])\<lparr> caretOffsetRef := 0 \<rparr>) =
     (mount (ascii ''ab'') [])\<lparr> caretOffsetRef := 0 \<rparr>"
  by code_simp

end
